theory Spec2Isabelle
  imports Complex_Main "HOL-Library.Multiset" "HOL-Library.Sublist"
begin

section \<open>Numbers\<close>

text \<open>
  The numbers of the application are modelled as mathematical reals: there is no NaN and
  no infinity, and the functions compute without rounding error, except where a function
  is given a second time on double-precision numbers (\<open>normalizeLng_double\<close>). Every
  function below that bears the name of a function of the application is a translation of
  that function.
\<close>

definition js_trunc :: "real \<Rightarrow> int" where
  "js_trunc x = (if 0 \<le> x then \<lfloor>x\<rfloor> else \<lceil>x\<rceil>)"

text \<open>The remainder operator \<open>a % b\<close>: the result has the sign of the dividend.\<close>

definition js_rem :: "real \<Rightarrow> real \<Rightarrow> real" where
  "js_rem a b = a - b * of_int (js_trunc (a / b))"

text \<open>\<open>Math.round\<close>: to the nearest integer, halves towards plus infinity.\<close>

definition js_round :: "real \<Rightarrow> int" where
  "js_round x = \<lfloor>x + 1 / 2\<rfloor>"

text \<open>
  Double-precision numbers are the reals \<open>m * 2 powi e\<close> with \<open>\<bar>m\<bar> < 2 ^ 53\<close> and
  \<open>- 1074 \<le> e\<close>. The result of a sum or a difference is the exact result rounded to the
  nearest of them, to the one with the even significand at a tie: \<open>toDouble\<close> is that
  rounding, where \<open>2 powi ulpExponent x\<close> is the spacing of the doubles between the two
  powers of two around \<open>x\<close> (52 fraction bits; the spacing of the subnormal numbers below
  \<open>2 powi (- 1022)\<close>). The exponent has no upper limit here: no sum overflows.
\<close>

definition roundEven :: "real \<Rightarrow> int" where
  "roundEven q =
     (let f = \<lfloor>q\<rfloor>; d = q - of_int f
      in if d < 1 / 2 then f else if d > 1 / 2 then f + 1 else if even f then f else f + 1)"



section \<open>GeoMath\<close>

definition normalizeLng :: "real \<Rightarrow> real" where
  "normalizeLng lng =
     (let n = js_rem (js_rem (lng + 180) 360 + 360) 360 - 180
      in if n = - 180 then 180 else n)"


definition MAX_LAT :: real where
  "MAX_LAT = 85.05112878"

definition clampLat :: "real \<Rightarrow> real" where
  "clampLat lat = max (min lat MAX_LAT) (- MAX_LAT)"

text \<open>WebMercator tile math (slippy map); \<open>z\<close> is an integer zoom, \<open>n = 2 ** z\<close>.\<close>

definition lng2tileX :: "real \<Rightarrow> nat \<Rightarrow> int" where
  "lng2tileX lng z = \<lfloor>((lng + 180) / 360) * 2 ^ z\<rfloor>"

definition lat2tileY :: "real \<Rightarrow> nat \<Rightarrow> int" where
  "lat2tileY lat z =
     (let latRad = (clampLat lat * pi) / 180
      in \<lfloor>((1 - ln (tan latRad + 1 / cos latRad) / pi) / 2) * 2 ^ z\<rfloor>)"

definition tileX2lng :: "int \<Rightarrow> nat \<Rightarrow> real" where
  "tileX2lng x z = (of_int x / 2 ^ z) * 360 - 180"

definition tileY2lat :: "int \<Rightarrow> nat \<Rightarrow> real" where
  "tileY2lat y z =
     (let rad = arctan (sinh (pi * (1 - (2 * of_int y) / 2 ^ z)))
      in (rad * 180) / pi)"

section \<open>Map bounds\<close>

text \<open>
  The bounds object of the map library, as far as the application reads it: the four
  edges, and the centre as the midpoint of the corners.
\<close>

record latLngBounds =
  south :: real
  west :: real
  north :: real
  east :: real

definition getCenterLat :: "latLngBounds \<Rightarrow> real" where
  "getCenterLat b = (south b + north b) / 2"

definition getCenterLng :: "latLngBounds \<Rightarrow> real" where
  "getCenterLng b = (west b + east b) / 2"

text \<open>\<open>L.latLngBounds(corner1, corner2)\<close> orders the two corners.\<close>

definition latLngBounds_of :: "real \<times> real \<Rightarrow> real \<times> real \<Rightarrow> latLngBounds" where
  "latLngBounds_of c1 c2 =
     \<lparr> south = min (fst c1) (fst c2), west = min (snd c1) (snd c2),
       north = max (fst c1) (fst c2), east = max (snd c1) (snd c2) \<rparr>"

section \<open>TileQueryPlanner\<close>

record tileBox =
  box_top :: real
  box_bottom :: real
  box_left :: real
  box_right :: real

record span =
  span_west :: real
  span_east :: real

record computed =
  c_requestBoxes :: "tileBox list"
  c_debugBoxes :: "tileBox list"
  tileCount :: nat

text \<open>
  The plan is the computed object with the zoom added; the plan for null bounds has no
  tile count.
\<close>

record queryPlan =
  requestBoxes :: "tileBox list"
  debugBoxes :: "tileBox list"
  plan_tileCount :: "nat option"
  usedZoom :: real

definition MAX_WAZE_TILE_BOXES_PER_REQUEST :: nat where
  "MAX_WAZE_TILE_BOXES_PER_REQUEST = 24"

text \<open>The body of the loop over the spans in \<open>computeAtZoom\<close>, for one span.\<close>

definition spanRequestBox :: "real \<Rightarrow> real \<Rightarrow> nat \<Rightarrow> span \<Rightarrow> tileBox" where
  "spanRequestBox nrth sth zz sp =
     (let safeEast = (if span_east sp \<ge> 180 then 179.999999 else span_east sp);
          safeSouth = (if sth \<le> - 85.05112878 then - 85.05112877 else sth);
          xMin = lng2tileX (span_west sp) zz;
          xMax = lng2tileX safeEast zz;
          yMin = lat2tileY nrth zz;
          yMax = lat2tileY safeSouth zz
      in \<lparr> box_top = tileY2lat yMin zz, box_bottom = tileY2lat (yMax + 1) zz,
           box_left = tileX2lng xMin zz, box_right = tileX2lng (xMax + 1) zz \<rparr>)"

definition spanDebugBoxes :: "real \<Rightarrow> real \<Rightarrow> nat \<Rightarrow> span \<Rightarrow> tileBox list" where
  "spanDebugBoxes nrth sth zz sp =
     (let safeEast = (if span_east sp \<ge> 180 then 179.999999 else span_east sp);
          safeSouth = (if sth \<le> - 85.05112878 then - 85.05112877 else sth);
          xMin = lng2tileX (span_west sp) zz;
          xMax = lng2tileX safeEast zz;
          yMin = lat2tileY nrth zz;
          yMax = lat2tileY safeSouth zz
      in concat (map (\<lambda>x. map (\<lambda>y.
           \<lparr> box_top = tileY2lat y zz, box_bottom = tileY2lat (y + 1) zz,
             box_left = tileX2lng x zz, box_right = tileX2lng (x + 1) zz \<rparr>) [yMin..yMax])
           [xMin..xMax]))"

definition computeAtZoom :: "span list \<Rightarrow> real \<Rightarrow> real \<Rightarrow> nat \<Rightarrow> computed" where
  "computeAtZoom spans nrth sth zz =
     (let dbg = concat (map (spanDebugBoxes nrth sth zz) spans);
          req = map (spanRequestBox nrth sth zz) spans
      in \<lparr> c_requestBoxes = req, c_debugBoxes = dbg, tileCount = length dbg \<rparr>)"

text \<open>
  The loop \<open>while (computed.tileCount > MAX && z > 0) { z -= 1; computed = computeAtZoom(z) }\<close>
  on its two variables.
\<close>

fun lowerZoom :: "(nat \<Rightarrow> computed) \<Rightarrow> nat \<Rightarrow> computed \<Rightarrow> nat \<times> computed" where
  "lowerZoom cz z c =
     (if tileCount c > MAX_WAZE_TILE_BOXES_PER_REQUEST \<and> z > 0
      then lowerZoom cz (z - 1) (cz (z - 1))
      else (z, c))"

declare lowerZoom.simps [simp del]

definition buildSpans :: "real \<Rightarrow> real \<Rightarrow> span list" where
  "buildSpans w e =
     (if w > e
      then [\<lparr> span_west = w, span_east = 180 \<rparr>, \<lparr> span_west = - 180, span_east = e \<rparr>]
      else [\<lparr> span_west = w, span_east = e \<rparr>])"

definition clampZoom :: "real \<Rightarrow> nat" where
  "clampZoom zoom = nat (max 0 (min 22 (js_round zoom)))"

definition buildWazeTileSnappedQuery :: "latLngBounds option \<Rightarrow> real \<Rightarrow> queryPlan" where
  "buildWazeTileSnappedQuery bounds zoom =
     (case bounds of
        None \<Rightarrow> \<lparr> requestBoxes = [], debugBoxes = [], plan_tileCount = None, usedZoom = zoom \<rparr>
      | Some b \<Rightarrow>
          (let nrth = clampLat (north b);
               sth = clampLat (south b);
               w = normalizeLng (west b);
               e = normalizeLng (east b);
               spans = buildSpans w e;
               z = clampZoom zoom;
               (z', c) = lowerZoom (computeAtZoom spans nrth sth) z
                           (computeAtZoom spans nrth sth z)
           in \<lparr> requestBoxes = c_requestBoxes c, debugBoxes = c_debugBoxes c,
                plan_tileCount = Some (tileCount c), usedZoom = real z' \<rparr>))"


section \<open>JSON scalars\<close>

text \<open>
  The fields of the feed entries are JSON scalars of any type, the \<open>point\<close> of a warning
  apart, which is modelled with the warning feed. \<open>JUndefined\<close> is a missing field. The
  conversion of a number to a string is the language's own and is taken as the parameter
  \<open>numStr\<close> wherever a template literal prints a number.
\<close>

datatype jsval = JUndefined | JNull | JBool bool | JNum real | JStr string

fun truthy :: "jsval \<Rightarrow> bool" where
  "truthy JUndefined = False"
| "truthy JNull = False"
| "truthy (JBool b) = b"
| "truthy (JNum x) = (x \<noteq> 0)"
| "truthy (JStr s) = (s \<noteq> [])"

text \<open>The operator \<open>a || b\<close>.\<close>

definition js_or :: "jsval \<Rightarrow> jsval \<Rightarrow> jsval" where
  "js_or a b = (if truthy a then a else b)"

fun is_number :: "jsval \<Rightarrow> bool" where
  "is_number (JNum x) = True"
| "is_number v = False"

fun js_String :: "(real \<Rightarrow> string) \<Rightarrow> jsval \<Rightarrow> string" where
  "js_String numStr JUndefined = ''undefined''"
| "js_String numStr JNull = ''null''"
| "js_String numStr (JBool b) = (if b then ''true'' else ''false'')"
| "js_String numStr (JNum x) = numStr x"
| "js_String numStr (JStr s) = s"

text \<open>\<open>toLowerCase\<close> on the ASCII letters; other characters are left as they are.\<close>

definition lowerChar :: "char \<Rightarrow> char" where
  "lowerChar c =
     (case map_of (zip ''ABCDEFGHIJKLMNOPQRSTUVWXYZ'' ''abcdefghijklmnopqrstuvwxyz'') c of
        Some l \<Rightarrow> l
      | None \<Rightarrow> c)"

definition toLowerCase :: "string \<Rightarrow> string" where
  "toLowerCase s = map lowerChar s"

definition js_includes :: "string \<Rightarrow> string \<Rightarrow> bool" where
  "js_includes s pat = sublist pat s"

definition digitChar :: "nat \<Rightarrow> char" where
  "digitChar d = ''0123456789'' ! (d mod 10)"

function showNat :: "nat \<Rightarrow> string" where
  "showNat n = (if n < 10 then [digitChar n] else showNat (n div 10) @ [digitChar (n mod 10)])"
  by pat_completeness auto
termination
  by (relation "measure id") auto

declare showNat.simps [simp del]

section \<open>Maps in insertion order\<close>

text \<open>
  \<open>new Map(entries)\<close> keeps one entry per key, at the position where the key was first
  inserted and with the value that was inserted last; \<open>values()\<close> lists the values in that
  order.
\<close>

fun mapSet :: "('k \<times> 'v) list \<Rightarrow> 'k \<Rightarrow> 'v \<Rightarrow> ('k \<times> 'v) list" where
  "mapSet [] k v = [(k, v)]"
| "mapSet ((k', v') # m) k v = (if k' = k then (k', v) # m else (k', v') # mapSet m k v)"

definition newMap :: "('k \<times> 'v) list \<Rightarrow> ('k \<times> 'v) list" where
  "newMap entries = foldl (\<lambda>m (k, v). mapSet m k v) [] entries"

definition mapValues :: "('k \<times> 'v) list \<Rightarrow> 'v list" where
  "mapValues m = map snd m"

definition mapGet :: "('k \<times> 'v) list \<Rightarrow> 'k \<Rightarrow> 'v option" where
  "mapGet m k = map_of m k"

section \<open>Distances and the PointClusterer\<close>

record geoPoint =
  lat :: real
  lng :: real

definition toRad :: "real \<Rightarrow> real" where
  "toRad deg = (deg * pi) / 180"

definition haversineMeters :: "geoPoint \<Rightarrow> geoPoint \<Rightarrow> real" where
  "haversineMeters a b =
     (let R = 6371000;
          dLat = toRad (lat b - lat a);
          dLng = toRad (lng b - lng a);
          lat1 = toRad (lat a);
          lat2 = toRad (lat b);
          sinDLat = sin (dLat / 2);
          sinDLng = sin (dLng / 2);
          h = sinDLat * sinDLat + cos lat1 * cos lat2 * sinDLng * sinDLng
      in 2 * R * arcsin (min 1 (sqrt h)))"

record 'a cluster =
  cl_id :: jsval
  cl_center :: geoPoint
  cl_primary :: 'a
  cl_count :: nat
  cl_items :: "'a list"

text \<open>
  One pass of the loop \<open>for (let i = remaining.length - 1; i >= 0; i -= 1)\<close>: the
  candidates are visited from the last to the first, an absorbed candidate is pushed on
  the cluster and spliced out of \<open>remaining\<close>. The result is the cluster, what remains,
  and the flag \<open>changed\<close>.
\<close>

fun absorbPass :: "('a \<Rightarrow> 'a \<Rightarrow> bool) \<Rightarrow> 'a list \<Rightarrow> 'a list \<Rightarrow> 'a list \<times> 'a list \<times> bool" where
  "absorbPass near cl [] = (cl, [], False)"
| "absorbPass near cl (x # xs) =
     (case absorbPass near cl xs of
        (c, kept, changed) \<Rightarrow>
          if list_ex (\<lambda>p. near p x) c then (c @ [x], kept, True)
          else (c, x # kept, changed))"

text \<open>The loop \<open>while (changed)\<close>.\<close>

function growCluster :: "('a \<Rightarrow> 'a \<Rightarrow> bool) \<Rightarrow> 'a list \<Rightarrow> 'a list \<Rightarrow> 'a list \<times> 'a list" where
  "growCluster near cl remaining =
     (case absorbPass near cl remaining of
        (c, kept, changed) \<Rightarrow> if changed then growCluster near c kept else (c, kept))"
  by pat_completeness auto
termination
proof (relation "measure (\<lambda>(near, cl, remaining). length remaining)", goal_cases)
  case 1
  show ?case by simp
next
  case (2 near cl remaining x1 x2 x1a x2a)
  have len: "length (fst (snd (absorbPass near cl xs))) \<le> length xs \<and>
      (snd (snd (absorbPass near cl xs)) \<longrightarrow> length (fst (snd (absorbPass near cl xs))) < length xs)"
    for xs
    by (induction xs) (auto split: prod.splits)
  from 2 len [of remaining] show ?case by (cases "absorbPass near cl remaining") auto
qed

declare growCluster.simps [simp del]

text \<open>
  The outer loop \<open>while (remaining.length)\<close>: the seed is popped from the end of
  \<open>remaining\<close>; \<open>build\<close> makes the cluster object from the member list.
\<close>

function clusterLoop ::
  "('a list \<Rightarrow> 'c) \<Rightarrow> ('a \<Rightarrow> 'a \<Rightarrow> bool) \<Rightarrow> 'a list \<Rightarrow> 'c list \<Rightarrow> 'c list" where
  "clusterLoop build near remaining clusters =
     (if remaining = [] then clusters
      else (case growCluster near [last remaining] (butlast remaining) of
              (cl, remaining') \<Rightarrow> clusterLoop build near remaining' (clusters @ [build cl])))"
  by pat_completeness auto
termination
proof (relation "measure (\<lambda>(build, near, remaining, clusters). length remaining)", goal_cases)
  case 1
  show ?case by simp
next
  case (2 build near remaining clusters x1 x2)
  have pass: "length (fst (snd (absorbPass nr c xs))) \<le> length xs"
    for nr :: "'a \<Rightarrow> 'a \<Rightarrow> bool" and c xs
    by (induction xs) (auto split: prod.splits)
  have grow: "length (snd (growCluster nr c xs)) \<le> length xs"
    for nr :: "'a \<Rightarrow> 'a \<Rightarrow> bool" and c xs
  proof (induction nr c xs rule: growCluster.induct)
    case (1 near c xs)
    obtain c' kept changed where p: "absorbPass near c xs = (c', kept, changed)"
      by (cases "absorbPass near c xs") auto
    have k: "length kept \<le> length xs" using pass [of near c xs] p by simp
    show ?case
    proof (cases changed)
      case True
      with 1 [of c' "(kept, changed)" kept changed] p
      have "length (snd (growCluster near c' kept)) \<le> length kept"
        by simp
      with k p True show ?thesis by (simp add: growCluster.simps [of near c xs])
    next
      case False
      with k p show ?thesis by (simp add: growCluster.simps [of near c xs])
    qed
  qed
  from 2 grow [of near "[last remaining]" "butlast remaining"] show ?case
    by (cases remaining rule: rev_cases) (auto dest: arg_cong [where f = snd])
qed

declare clusterLoop.simps [simp del]

definition centerOf :: "('a \<Rightarrow> geoPoint) \<Rightarrow> 'a list \<Rightarrow> geoPoint" where
  "centerOf loc cl =
     (let acc = foldl (\<lambda>acc p. \<lparr> lat = lat acc + lat (loc p), lng = lng acc + lng (loc p) \<rparr>)
                  \<lparr> lat = 0, lng = 0 \<rparr> cl
      in \<lparr> lat = lat acc / real (length cl), lng = lng acc / real (length cl) \<rparr>)"

text \<open>The template literal \<open>`${center.lat}-${center.lng}-${cluster.length}`\<close>.\<close>

definition centerKey :: "(real \<Rightarrow> string) \<Rightarrow> geoPoint \<Rightarrow> nat \<Rightarrow> string" where
  "centerKey numStr c n = numStr (lat c) @ ''-'' @ numStr (lng c) @ ''-'' @ showNat n"

subsection \<open>Static points\<close>

record radarPoint =
  rp_id :: string
  rp_lat :: real
  rp_lng :: real
  rp_desc :: string

definition radarLoc :: "radarPoint \<Rightarrow> geoPoint" where
  "radarLoc p = \<lparr> lat = rp_lat p, lng = rp_lng p \<rparr>"

definition nearPoints :: "real \<Rightarrow> radarPoint \<Rightarrow> radarPoint \<Rightarrow> bool" where
  "nearPoints radiusMeters p candidate =
     (haversineMeters \<lparr> lat = rp_lat p, lng = rp_lng p \<rparr>
        \<lparr> lat = rp_lat candidate, lng = rp_lng candidate \<rparr> \<le> radiusMeters)"

definition buildPointCluster :: "(real \<Rightarrow> string) \<Rightarrow> radarPoint list \<Rightarrow> radarPoint cluster" where
  "buildPointCluster numStr cl =
     (let c = centerOf radarLoc cl;
          prim = hd cl
      in \<lparr> cl_id = js_or (JStr (rp_id prim)) (JStr (centerKey numStr c (length cl))),
           cl_center = c, cl_primary = prim, cl_count = length cl, cl_items = cl \<rparr>)"

definition clusterPoints ::
  "(real \<Rightarrow> string) \<Rightarrow> radarPoint list \<Rightarrow> real \<Rightarrow> radarPoint cluster list" where
  "clusterPoints numStr points radiusMeters =
     clusterLoop (buildPointCluster numStr) (nearPoints radiusMeters) points []"

subsection \<open>Live alerts\<close>

record rawAlert =
  a_uuid :: jsval
  a_id :: jsval
  a_type :: jsval
  a_subtype :: jsval
  a_street :: jsval
  a_city :: jsval
  a_pubMillis :: jsval
  a_location_x :: jsval
  a_location_y :: jsval

record alert =
  al_id :: jsval
  al_uuid :: jsval
  al_type :: jsval
  al_subtype :: jsval
  al_street :: jsval
  al_city :: jsval
  al_pubMillis :: jsval
  al_location :: geoPoint
  al_raw :: rawAlert

definition nearAlerts :: "real \<Rightarrow> alert \<Rightarrow> alert \<Rightarrow> bool" where
  "nearAlerts radiusMeters p candidate =
     (haversineMeters (al_location p) (al_location candidate) \<le> radiusMeters)"

text \<open>
  \<open>x?.pubMillis || 0\<close> as a number. The feed gives the time as a number; a time that is
  not a number is read as 0 here, and the choice of the primary member is not part of any
  statement below.
\<close>

definition tsOf :: "alert \<Rightarrow> real" where
  "tsOf a = (case js_or (al_pubMillis a) (JNum 0) of JNum t \<Rightarrow> t | _ \<Rightarrow> 0)"

definition latestAlert :: "alert list \<Rightarrow> alert" where
  "latestAlert cl = foldl (\<lambda>best cur. if tsOf cur \<ge> tsOf best then cur else best) (hd cl) cl"

definition buildAlertCluster :: "(real \<Rightarrow> string) \<Rightarrow> alert list \<Rightarrow> alert cluster" where
  "buildAlertCluster numStr cl =
     (let c = centerOf al_location cl;
          prim = latestAlert cl
      in \<lparr> cl_id = js_or (al_id prim) (JStr (centerKey numStr c (length cl))),
           cl_center = c, cl_primary = prim, cl_count = length cl, cl_items = cl \<rparr>)"

definition clusterPoliceAlerts ::
  "(real \<Rightarrow> string) \<Rightarrow> alert list \<Rightarrow> real \<Rightarrow> alert cluster list" where
  "clusterPoliceAlerts numStr alerts radiusMeters =
     clusterLoop (buildAlertCluster numStr) (nearAlerts radiusMeters) alerts []"

section \<open>ViewportPointFilter\<close>

definition isPointInBounds :: "radarPoint \<Rightarrow> latLngBounds option \<Rightarrow> bool" where
  "isPointInBounds point bounds =
     (case bounds of
        None \<Rightarrow> False
      | Some b \<Rightarrow>
          (let w = normalizeLng (west b);
               e = normalizeLng (east b)
           in if rp_lat point > north b \<or> rp_lat point < south b then False
              else (let l = normalizeLng (rp_lng point)
                    in if w > e then l \<ge> w \<or> l \<le> e else l \<ge> w \<and> l \<le> e)))"

definition isPointInBoundsPadded :: "radarPoint \<Rightarrow> latLngBounds option \<Rightarrow> real \<Rightarrow> bool" where
  "isPointInBoundsPadded point bounds padMeters =
     (case bounds of
        None \<Rightarrow> False
      | Some b \<Rightarrow>
          (let latPad = padMeters / 111320;
               lngPad = padMeters / (111320 * max 0.15 (cos ((getCenterLat b * pi) / 180)));
               padded = latLngBounds_of (south b - latPad, west b - lngPad)
                          (north b + latPad, east b + lngPad)
           in isPointInBounds point (Some padded)))"

definition SPEED_RADAR_CLUSTER_RADIUS_METERS :: real where
  "SPEED_RADAR_CLUSTER_RADIUS_METERS = 200"

definition MIN_SPEED_RADAR_RENDER_ZOOM :: real where
  "MIN_SPEED_RADAR_RENDER_ZOOM = 6"

definition MAX_VISIBLE_SPEED_RADARS :: nat where
  "MAX_VISIBLE_SPEED_RADARS = 8000"

definition SPEED_RADAR_VIEW_PADDING_METERS :: real where
  "SPEED_RADAR_VIEW_PADDING_METERS = 50000"

record radarView =
  rv_clusters :: "radarPoint cluster list"
  rv_inViewCount :: nat
  rv_tooMany :: bool

text \<open>
  The loop \<open>for (const p of active)\<close> on its variables \<open>visible\<close> and \<open>inViewCount\<close>;
  \<open>Inl\<close> is the early return with the count reached. The budget is an argument, so that
  the loop can be run with a small one.
\<close>

fun radarScan ::
  "nat \<Rightarrow> (radarPoint \<Rightarrow> bool) \<Rightarrow> radarPoint list \<Rightarrow> radarPoint list \<Rightarrow> nat
    \<Rightarrow> nat + radarPoint list \<times> nat" where
  "radarScan budget inView [] visible inViewCount = Inr (visible, inViewCount)"
| "radarScan budget inView (p # ps) visible inViewCount =
     (if inView p
      then (let inViewCount' = inViewCount + 1;
                visible' = (if length visible \<le> budget then visible @ [p] else visible)
            in if inViewCount' > budget then Inl inViewCount'
               else radarScan budget inView ps visible' inViewCount')
      else radarScan budget inView ps visible inViewCount)"

definition speedRadarsInViewWith ::
  "nat \<Rightarrow> (real \<Rightarrow> string) \<Rightarrow> bool \<Rightarrow> latLngBounds option \<Rightarrow> real \<Rightarrow> bool
    \<Rightarrow> radarPoint list \<Rightarrow> radarView" where
  "speedRadarsInViewWith budget numStr showSpeedRadars mapBounds mapZoom loading active =
     (if \<not> showSpeedRadars then \<lparr> rv_clusters = [], rv_inViewCount = 0, rv_tooMany = False \<rparr>
      else if mapBounds = None then \<lparr> rv_clusters = [], rv_inViewCount = 0, rv_tooMany = False \<rparr>
      else if mapZoom < MIN_SPEED_RADAR_RENDER_ZOOM
        then \<lparr> rv_clusters = [], rv_inViewCount = 0, rv_tooMany = False \<rparr>
      else if loading then \<lparr> rv_clusters = [], rv_inViewCount = 0, rv_tooMany = False \<rparr>
      else (case radarScan budget
                   (\<lambda>p. isPointInBoundsPadded p mapBounds SPEED_RADAR_VIEW_PADDING_METERS)
                   active [] 0 of
              Inl n \<Rightarrow> \<lparr> rv_clusters = [], rv_inViewCount = n, rv_tooMany = True \<rparr>
            | Inr (visible, n) \<Rightarrow>
                \<lparr> rv_clusters = clusterPoints numStr visible SPEED_RADAR_CLUSTER_RADIUS_METERS,
                  rv_inViewCount = n, rv_tooMany = False \<rparr>))"

definition speedRadarsInView ::
  "(real \<Rightarrow> string) \<Rightarrow> bool \<Rightarrow> latLngBounds option \<Rightarrow> real \<Rightarrow> bool
    \<Rightarrow> radarPoint list \<Rightarrow> radarView" where
  "speedRadarsInView = speedRadarsInViewWith MAX_VISIBLE_SPEED_RADARS"

section \<open>Retry directive\<close>

definition DEFAULT_WAZE_RETRY_AFTER_SEC :: real where
  "DEFAULT_WAZE_RETRY_AFTER_SEC = 30"

text \<open>
  \<open>Number(s)\<close> and \<open>Date.parse(s)\<close> are the language's own and are parameters: \<open>toNumber s\<close>
  is \<open>None\<close> where \<open>Number(s)\<close> is not a finite number, \<open>dateParse s\<close> is \<open>None\<close> where
  \<open>Date.parse(s)\<close> is NaN. \<open>now\<close> is the reading of the clock inside the function. The
  header value is \<open>None\<close> when the response has no such header.
\<close>

definition parseRetryAfterToMs ::
  "(string \<Rightarrow> real option) \<Rightarrow> (string \<Rightarrow> real option) \<Rightarrow> real \<Rightarrow> string option \<Rightarrow> real" where
  "parseRetryAfterToMs toNumber dateParse now retryAfterValue =
     (case retryAfterValue of
        None \<Rightarrow> DEFAULT_WAZE_RETRY_AFTER_SEC * 1000
      | Some s \<Rightarrow>
          if s = [] then DEFAULT_WAZE_RETRY_AFTER_SEC * 1000
          else (case toNumber s of
                  Some asNumber \<Rightarrow>
                    if asNumber > 0 then asNumber * 1000
                    else (case dateParse s of
                            Some asDate \<Rightarrow> max 0 (asDate - now)
                          | None \<Rightarrow> DEFAULT_WAZE_RETRY_AFTER_SEC * 1000)
                | None \<Rightarrow>
                    (case dateParse s of
                       Some asDate \<Rightarrow> max 0 (asDate - now)
                     | None \<Rightarrow> DEFAULT_WAZE_RETRY_AFTER_SEC * 1000)))"

section \<open>AlertFetchOrchestrator\<close>

datatype wazeEnv = NA | ROW

datatype wazeEnvMode = Auto | Fixed wazeEnv

definition inferWazeEnvFromBounds :: "latLngBounds option \<Rightarrow> wazeEnv" where
  "inferWazeEnvFromBounds bounds =
     (case bounds of
        None \<Rightarrow> NA
      | Some b \<Rightarrow>
          (let la = getCenterLat b;
               l = normalizeLng (getCenterLng b)
           in if l \<le> - 30 \<and> l \<ge> - 170 \<and> la \<ge> 5 \<and> la \<le> 85 then NA else ROW))"

definition isPoliceAlert :: "(real \<Rightarrow> string) \<Rightarrow> rawAlert \<Rightarrow> bool" where
  "isPoliceAlert numStr a =
     (let type = toLowerCase (js_String numStr (js_or (a_type a) (JStr [])));
          subtype = toLowerCase (js_String numStr (js_or (a_subtype a) (JStr [])))
      in js_includes type ''police'' \<or> js_includes subtype ''police'')"

text \<open>
  The template literal
  \<open>`${a?.type || 'unknown'}-${lng}-${lat}-${a?.pubMillis || ''}`\<close>.
\<close>

definition compositeId :: "(real \<Rightarrow> string) \<Rightarrow> rawAlert \<Rightarrow> real \<Rightarrow> real \<Rightarrow> string" where
  "compositeId numStr a lg la =
     js_String numStr (js_or (a_type a) (JStr ''unknown'')) @ ''-'' @ numStr lg @ ''-''
       @ numStr la @ ''-'' @ js_String numStr (js_or (a_pubMillis a) (JStr []))"

text \<open>The function mapped over the police alerts; \<open>None\<close> is its \<open>null\<close>.\<close>

definition toAlert :: "(real \<Rightarrow> string) \<Rightarrow> rawAlert \<Rightarrow> alert option" where
  "toAlert numStr a =
     (case (a_location_y a, a_location_x a) of
        (JNum la, JNum lg) \<Rightarrow>
          Some \<lparr> al_id = js_or (a_uuid a) (js_or (a_id a) (JStr (compositeId numStr a lg la))),
                 al_uuid = js_or (a_uuid a) JNull,
                 al_type = js_or (a_type a) (JStr []),
                 al_subtype = js_or (a_subtype a) (JStr []),
                 al_street = js_or (a_street a) (JStr []),
                 al_city = js_or (a_city a) (JStr []),
                 al_pubMillis = js_or (a_pubMillis a) JNull,
                 al_location = \<lparr> lat = la, lng = lg \<rparr>,
                 al_raw = a \<rparr>
      | _ \<Rightarrow> None)"

definition policeOf :: "(real \<Rightarrow> string) \<Rightarrow> rawAlert list \<Rightarrow> alert list" where
  "policeOf numStr alerts = List.map_filter (toAlert numStr) (filter (isPoliceAlert numStr) alerts)"

definition dedupeById :: "alert list \<Rightarrow> alert list" where
  "dedupeById police = mapValues (newMap (map (\<lambda>p. (al_id p, p)) police))"

text \<open>
  A payload is the \<open>alerts\<close> array of a response body, \<open>None\<close> where the body has no such
  array.
\<close>

definition flattenAlerts :: "rawAlert list option list \<Rightarrow> rawAlert list" where
  "flattenAlerts payloads = concat (map (\<lambda>d. case d of Some xs \<Rightarrow> xs | None \<Rightarrow> []) payloads)"

definition publishedAlerts :: "(real \<Rightarrow> string) \<Rightarrow> rawAlert list option list \<Rightarrow> alert list" where
  "publishedAlerts numStr payloads = dedupeById (policeOf numStr (flattenAlerts payloads))"

subsection \<open>The fetch cycle\<close>

definition MIN_WAZE_FETCH_INTERVAL_MS :: real where
  "MIN_WAZE_FETCH_INTERVAL_MS = 2500"

record request =
  rq_env :: wazeEnv
  rq_top :: real
  rq_bottom :: real
  rq_left :: real
  rq_right :: real

definition buildWazeAlertsUrlsFromBoxes :: "tileBox list \<Rightarrow> wazeEnv \<Rightarrow> request list" where
  "buildWazeAlertsUrlsFromBoxes boxes env =
     map (\<lambda>b. \<lparr> rq_env = env, rq_top = box_top b, rq_bottom = box_bottom b,
                rq_left = box_left b, rq_right = box_right b \<rparr>) boxes"

text \<open>
  \<open>Number(x.toFixed(5))\<close>: the nearest multiple of 0.00001, at a tie the one of the larger
  magnitude.
\<close>

definition toFixed5 :: "real \<Rightarrow> real" where
  "toFixed5 x =
     (if x < 0 then - (of_int \<lfloor>(- x) * 100000 + 1 / 2\<rfloor> / 100000)
      else of_int \<lfloor>x * 100000 + 1 / 2\<rfloor> / 100000)"

text \<open>
  The query key is a string made of the rounded edges of the boxes and of the
  environment tag; it is kept as these components. The empty string, the initial value of
  the last key, is \<open>None\<close>.
\<close>

type_synonym queryKey = "tileBox list \<times> wazeEnv"

definition queryKeyOf :: "tileBox list \<Rightarrow> wazeEnv \<Rightarrow> queryKey" where
  "queryKeyOf boxes env =
     (map (\<lambda>b. \<lparr> box_top = toFixed5 (box_top b), box_bottom = toFixed5 (box_bottom b),
                 box_left = toFixed5 (box_left b), box_right = toFixed5 (box_right b) \<rparr>) boxes,
      env)"

record rateLimitState =
  backoffUntil :: real
  lastFetchAt :: real
  lastQueryKey :: "queryKey option"

datatype uiError = ErrNone | ErrRateLimited int | ErrText string

record policeUi =
  policeAlerts :: "alert list"
  policeLoading :: bool
  policeError :: uiError
  policeLastUpdatedAt :: "real option"

record response =
  r_status :: nat
  r_retryAfter :: "string option"

definition r_ok :: "response \<Rightarrow> bool" where
  "r_ok r = (200 \<le> r_status r \<and> r_status r \<le> 299)"

text \<open>
  What the network answers to the calls of one cycle: the fetches are rejected with a
  message, or give one response each; the bodies of the responses fail to parse with a
  message, or give one payload each.
\<close>

datatype fetchOutcome = FetchRejected string | Fetched "response list"

datatype jsonOutcome = JsonRejected string | Parsed "rawAlert list option list"

text \<open>
  The environment of one cycle: the readings of the clock at the places where the cycle
  reads it, whether the cycle has been cancelled when it resumes, and the answers of the
  network.
\<close>

record cycleEnv =
  t_start :: real
  t_parse :: real
  t_backoff :: real
  t_updated :: real
  t_fetched :: real
  t_catch :: real
  aborted :: bool
  fetched :: "request list \<Rightarrow> fetchOutcome"
  parsed :: "request list \<Rightarrow> jsonOutcome"

record cycleResult =
  cr_state :: rateLimitState
  cr_ui :: policeUi
  cr_calls :: "request list"

datatype cycleError = RateLimitHit | RequestFailed nat | Rejected string

definition errMessage :: "cycleError \<Rightarrow> string" where
  "errMessage e =
     (case e of
        RateLimitHit \<Rightarrow> ''Waze rate limit hit (429)''
      | RequestFailed st \<Rightarrow> ''Waze request failed ('' @ showNat st @ '')''
      | Rejected m \<Rightarrow> m)"

text \<open>The \<open>catch\<close> and \<open>finally\<close> blocks.\<close>

definition catchError ::
  "cycleEnv \<Rightarrow> cycleError \<Rightarrow> rateLimitState \<Rightarrow> policeUi \<Rightarrow> request list \<Rightarrow> cycleResult" where
  "catchError ev err st ui calls =
     (if aborted ev then \<lparr> cr_state = st, cr_ui = ui, cr_calls = calls \<rparr>
      else if js_includes (errMessage err) ''429''
        then (let waitSec = \<lceil>(backoffUntil st - t_catch ev) / 1000\<rceil>
              in \<lparr> cr_state = st,
                   cr_ui = ui \<lparr> policeError := ErrRateLimited (max waitSec 1), policeLoading := False \<rparr>,
                   cr_calls = calls \<rparr>)
      else \<lparr> cr_state = st,
             cr_ui = ui \<lparr> policeError := ErrText (if errMessage err = [] then ''Failed to load police alerts''
                                                 else errMessage err),
                         policeLoading := False \<rparr>,
             cr_calls = calls \<rparr>)"

text \<open>
  The function \<open>run\<close> of the effect, which the effect starts only with map bounds. The
  conversions \<open>numStr\<close>, \<open>toNumber\<close> and \<open>dateParse\<close> are the parameters described above.
\<close>

definition run ::
  "(real \<Rightarrow> string) \<Rightarrow> (string \<Rightarrow> real option) \<Rightarrow> (string \<Rightarrow> real option) \<Rightarrow> cycleEnv
    \<Rightarrow> latLngBounds \<Rightarrow> real \<Rightarrow> wazeEnvMode \<Rightarrow> rateLimitState \<Rightarrow> policeUi \<Rightarrow> cycleResult" where
  "run numStr toNumber dateParse ev mapBounds mapZoom wazeEnvMode st ui =
     (let now = t_start ev
      in if now < backoffUntil st
         then (let waitSec = \<lceil>(backoffUntil st - now) / 1000\<rceil>
               in \<lparr> cr_state = st,
                    cr_ui = ui \<lparr> policeError := ErrRateLimited waitSec, policeLoading := False \<rparr>,
                    cr_calls = [] \<rparr>)
         else if now - lastFetchAt st < MIN_WAZE_FETCH_INTERVAL_MS
         then \<lparr> cr_state = st, cr_ui = ui, cr_calls = [] \<rparr>
         else
           (let ui1 = ui \<lparr> policeLoading := True, policeError := ErrNone \<rparr>;
                env = (case wazeEnvMode of Auto \<Rightarrow> inferWazeEnvFromBounds (Some mapBounds)
                       | Fixed e \<Rightarrow> e);
                boxes = requestBoxes (buildWazeTileSnappedQuery (Some mapBounds) mapZoom);
                queryKey = queryKeyOf boxes env
            in if Some queryKey = lastQueryKey st
               then \<lparr> cr_state = st, cr_ui = ui1 \<lparr> policeLoading := False \<rparr>, cr_calls = [] \<rparr>
               else
                 (let st1 = st \<lparr> lastQueryKey := Some queryKey \<rparr>;
                      urls = buildWazeAlertsUrlsFromBoxes boxes env
                  in case fetched ev urls of
                       FetchRejected m \<Rightarrow> catchError ev (Rejected m) st1 ui1 urls
                     | Fetched responses \<Rightarrow>
                         (case find (\<lambda>res. \<not> r_ok res) responses of
                            Some res \<Rightarrow>
                              if r_status res = 429
                              then (let backoffMs = parseRetryAfterToMs toNumber dateParse
                                                      (t_parse ev) (r_retryAfter res);
                                        st2 = st1 \<lparr> backoffUntil := t_backoff ev + backoffMs \<rparr>
                                    in catchError ev RateLimitHit st2 ui1 urls)
                              else catchError ev (RequestFailed (r_status res)) st1 ui1 urls
                          | None \<Rightarrow>
                              (case parsed ev urls of
                                 JsonRejected m \<Rightarrow> catchError ev (Rejected m) st1 ui1 urls
                               | Parsed payloads \<Rightarrow>
                                   if aborted ev
                                   then \<lparr> cr_state = st1, cr_ui = ui1, cr_calls = urls \<rparr>
                                   else \<lparr> cr_state = st1 \<lparr> lastFetchAt := t_fetched ev \<rparr>,
                                          cr_ui = ui1 \<lparr> policeAlerts := publishedAlerts numStr payloads,
                                                       policeLastUpdatedAt := Some (t_updated ev),
                                                       policeLoading := False \<rparr>,
                                          cr_calls = urls \<rparr>)))))"

section \<open>Primary warning feed\<close>

text \<open>
  The \<open>point\<close> of an entry is read from JSON and can be a value of any type: a scalar
  (\<open>Scalar JUndefined\<close> where the field is missing), an array, or an object with its
  properties. The shape check reads the truth value of the point and its \<open>length\<close>: the
  number of elements of an array, the number of characters of a string, the property of
  that name of an object, and nothing (\<open>undefined\<close>) on a number or a boolean. The check
  reads no \<open>length\<close> of \<open>null\<close> or of a missing point, which are not truthy.
\<close>

datatype jsany = Scalar jsval | Arr "jsany list" | Obj "(string \<times> jsany) list"

fun truthyAny :: "jsany \<Rightarrow> bool" where
  "truthyAny (Scalar v) = truthy v"
| "truthyAny (Arr xs) = True"
| "truthyAny (Obj props) = True"

fun lengthOf :: "jsany \<Rightarrow> jsany" where
  "lengthOf (Scalar (JStr s)) = Scalar (JNum (real (length s)))"
| "lengthOf (Scalar v) = Scalar JUndefined"
| "lengthOf (Arr xs) = Scalar (JNum (real (length xs)))"
| "lengthOf (Obj props) =
     (case map_of props ''length'' of Some v \<Rightarrow> v | None \<Rightarrow> Scalar JUndefined)"

text \<open>
  An entry of the response array that is an object, with the three fields that make its
  identity as JSON scalars. An entry that is not an object (\<open>null\<close>, a number, a string, a
  boolean, an array) is \<open>None\<close>: it is not truthy or it has no \<open>point\<close>.
\<close>

record rawWarning =
  item_userId :: jsval
  item_url :: jsval
  item_point :: jsany
  item_created :: jsval

record warning =
  w_id :: string
  w_userId :: jsval
  w_url :: jsval
  w_point :: jsany
  w_created :: jsval

text \<open>The template literal \<open>`${item.userId}-${item.url}-${item.created}`\<close>.\<close>

definition warningId :: "(real \<Rightarrow> string) \<Rightarrow> rawWarning \<Rightarrow> string" where
  "warningId numStr item =
     js_String numStr (item_userId item) @ ''-'' @ js_String numStr (item_url item) @ ''-''
       @ js_String numStr (item_created item)"

text \<open>The loop \<open>for (const item of data)\<close> of the updater given to \<open>setWarnings\<close>.\<close>

fun nextWarnings ::
  "(real \<Rightarrow> string) \<Rightarrow> (string \<times> warning) list \<Rightarrow> rawWarning option list \<Rightarrow> warning list" where
  "nextWarnings numStr prevById [] = []"
| "nextWarnings numStr prevById (None # data) = nextWarnings numStr prevById data"
| "nextWarnings numStr prevById (Some item # data) =
     (if \<not> truthyAny (item_point item) \<or> lengthOf (item_point item) \<noteq> Scalar (JNum 2)
      then nextWarnings numStr prevById data
      else (let wid = warningId numStr item;
                w = (case mapGet prevById wid of
                       Some existing \<Rightarrow> existing
                     | None \<Rightarrow> \<lparr> w_id = wid, w_userId = item_userId item,
                                  w_url = item_url item, w_point = item_point item,
                                  w_created = item_created item \<rparr>)
            in w # nextWarnings numStr prevById data))"

definition updateWarnings ::
  "(real \<Rightarrow> string) \<Rightarrow> warning list \<Rightarrow> rawWarning option list \<Rightarrow> warning list" where
  "updateWarnings numStr prev data =
     nextWarnings numStr (newMap (map (\<lambda>w. (w_id w, w)) prev)) data"

text \<open>
  One poll. The answer of the feed is a rejected fetch, a response that is not ok, a body
  that is not an array, or the array.
\<close>

datatype feedAnswer = FeedRejected | FeedNotOk | FeedNotArray | FeedArray "rawWarning option list"

definition fetchWarnings ::
  "(real \<Rightarrow> string) \<Rightarrow> string option \<Rightarrow> bool \<Rightarrow> feedAnswer \<Rightarrow> warning list \<Rightarrow> warning list" where
  "fetchWarnings numStr authToken isMounted answer warnings =
     (if authToken = None \<or> authToken = Some [] then warnings
      else (case answer of
              FeedRejected \<Rightarrow> warnings
            | FeedNotOk \<Rightarrow> warnings
            | FeedNotArray \<Rightarrow> warnings
            | FeedArray data \<Rightarrow>
                if \<not> isMounted then warnings else updateWarnings numStr warnings data))"

section \<open>Notions used in the statements\<close>

text \<open>
  The query key and the calls of a cycle, and what it means for a cycle to get past the
  three refusals (cooldown, throttle, unchanged key).
\<close>

definition cycleKey :: "latLngBounds \<Rightarrow> real \<Rightarrow> wazeEnvMode \<Rightarrow> queryKey" where
  "cycleKey b zoom mode =
     queryKeyOf (requestBoxes (buildWazeTileSnappedQuery (Some b) zoom))
       (case mode of Auto \<Rightarrow> inferWazeEnvFromBounds (Some b) | Fixed e \<Rightarrow> e)"

definition cycleUrls :: "latLngBounds \<Rightarrow> real \<Rightarrow> wazeEnvMode \<Rightarrow> request list" where
  "cycleUrls b zoom mode =
     buildWazeAlertsUrlsFromBoxes (requestBoxes (buildWazeTileSnappedQuery (Some b) zoom))
       (case mode of Auto \<Rightarrow> inferWazeEnvFromBounds (Some b) | Fixed e \<Rightarrow> e)"

definition passesGates ::
  "cycleEnv \<Rightarrow> latLngBounds \<Rightarrow> real \<Rightarrow> wazeEnvMode \<Rightarrow> rateLimitState \<Rightarrow> bool" where
  "passesGates ev b zoom mode st =
     (\<not> t_start ev < backoffUntil st \<and>
      \<not> t_start ev - lastFetchAt st < MIN_WAZE_FETCH_INTERVAL_MS \<and>
      lastQueryKey st \<noteq> Some (cycleKey b zoom mode))"

text \<open>The tile count that \<open>computeAtZoom\<close> finds for the bounds at a zoom.\<close>

definition tilesAtZoom :: "latLngBounds \<Rightarrow> nat \<Rightarrow> nat" where
  "tilesAtZoom b z =
     tileCount (computeAtZoom (buildSpans (normalizeLng (west b)) (normalizeLng (east b)))
                  (clampLat (north b)) (clampLat (south b)) z)"

text \<open>Membership in the padded viewport, with the padding of the application.\<close>

definition inPaddedView :: "latLngBounds \<Rightarrow> radarPoint \<Rightarrow> bool" where
  "inPaddedView b p = isPointInBoundsPadded p (Some b) SPEED_RADAR_VIEW_PADDING_METERS"

text \<open>
  The shape check of the warning feed, the entries of a response array that pass it, and
  the points that are arrays of two elements.
\<close>

definition passesShapeCheck :: "rawWarning \<Rightarrow> bool" where
  "passesShapeCheck item =
     (truthyAny (item_point item) \<and> lengthOf (item_point item) = Scalar (JNum 2))"

definition keptItems :: "rawWarning option list \<Rightarrow> rawWarning list" where
  "keptItems data =
     map the (filter (\<lambda>i. case i of None \<Rightarrow> False | Some item \<Rightarrow> passesShapeCheck item) data)"

definition isTwoElementArray :: "jsany \<Rightarrow> bool" where
  "isTwoElementArray p = (case p of Arr [a, b] \<Rightarrow> True | _ \<Rightarrow> False)"


section \<open>Example inputs\<close>

text \<open>
  Stand-ins for the conversions of the language, used only to run the model on the
  examples below: \<open>sampleNumber\<close> reads decimal digits with an optional minus sign, as
  \<open>Number\<close> does on such strings, \<open>sampleDateParse\<close> knows one HTTP date, and \<open>sampleNumStr\<close>
  prints a whole number in decimal.
\<close>

definition sampleDigit :: "char \<Rightarrow> nat option" where
  "sampleDigit c =
     (let n = (of_char c :: nat) in if 48 \<le> n \<and> n \<le> 57 then Some (n - 48) else None)"

fun sampleDigits :: "nat \<Rightarrow> string \<Rightarrow> nat option" where
  "sampleDigits acc [] = Some acc"
| "sampleDigits acc (c # cs) =
     (case sampleDigit c of None \<Rightarrow> None | Some d \<Rightarrow> sampleDigits (10 * acc + d) cs)"

definition sampleNumber :: "string \<Rightarrow> real option" where
  "sampleNumber s =
     (case s of
        [] \<Rightarrow> None
      | c # cs \<Rightarrow>
          if c = CHR ''-''
          then (if cs = [] then None else map_option (\<lambda>n. - real n) (sampleDigits 0 cs))
          else map_option real (sampleDigits 0 s))"

definition sampleDateParse :: "string \<Rightarrow> real option" where
  "sampleDateParse s =
     (if s = ''Wed, 21 Oct 2015 07:28:00 GMT'' then Some 1445412480000 else None)"

definition sampleNumStr :: "real \<Rightarrow> string" where
  "sampleNumStr x = (if x < 0 then ''-'' else []) @ showNat (nat \<lfloor>\<bar>x\<bar>\<rfloor>)"

text \<open>The state and the display before the first cycle, and a viewport.\<close>

definition initialState :: rateLimitState where
  "initialState = \<lparr> backoffUntil = 0, lastFetchAt = 0, lastQueryKey = None \<rparr>"

definition initialUi :: policeUi where
  "initialUi = \<lparr> policeAlerts = [], policeLoading = False, policeError = ErrNone,
                 policeLastUpdatedAt = None \<rparr>"

definition exampleBounds :: latLngBounds where
  "exampleBounds = \<lparr> south = 44, west = 25, north = 45, east = 27 \<rparr>"

text \<open>A cycle started at \<open>t\<close> whose call is answered 300 ms later with status 429.\<close>

definition rateLimitedAnswer :: "string option \<Rightarrow> request list \<Rightarrow> fetchOutcome" where
  "rateLimitedAnswer retryAfter urls = Fetched [\<lparr> r_status = 429, r_retryAfter = retryAfter \<rparr>]"

definition noBodies :: "request list \<Rightarrow> jsonOutcome" where
  "noBodies urls = Parsed []"

definition rateLimitedCycle :: "real \<Rightarrow> string option \<Rightarrow> cycleEnv" where
  "rateLimitedCycle t retryAfter =
     \<lparr> t_start = t, t_parse = t + 300, t_backoff = t + 300, t_updated = t + 300,
       t_fetched = t + 300, t_catch = t + 300, aborted = False,
       fetched = rateLimitedAnswer retryAfter, parsed = noBodies \<rparr>"

text \<open>
  A viewport across the antimeridian, which takes two calls, and a cycle started at \<open>t\<close>
  whose first call is answered with status 500 and whose second call is answered with
  status 429 and the retry directive \<open>30\<close>.
\<close>

definition datelineBounds :: latLngBounds where
  "datelineBounds = \<lparr> south = 44, west = 170, north = 45, east = - 170 \<rparr>"

definition mixedFailureAnswer :: "request list \<Rightarrow> fetchOutcome" where
  "mixedFailureAnswer urls =
     Fetched [\<lparr> r_status = 500, r_retryAfter = None \<rparr>,
              \<lparr> r_status = 429, r_retryAfter = Some ''30'' \<rparr>]"

definition mixedFailureCycle :: "real \<Rightarrow> cycleEnv" where
  "mixedFailureCycle t =
     \<lparr> t_start = t, t_parse = t + 300, t_backoff = t + 300, t_updated = t + 300,
       t_fetched = t + 300, t_catch = t + 300, aborted = False,
       fetched = mixedFailureAnswer, parsed = noBodies \<rparr>"

text \<open>Police alerts on one latitude, two response bodies, and a cycle that fetches them.\<close>

definition exampleAlert :: "jsval \<Rightarrow> jsval \<Rightarrow> jsval \<Rightarrow> jsval \<Rightarrow> rawAlert" where
  "exampleAlert uuid ident pub x =
     \<lparr> a_uuid = uuid, a_id = ident, a_type = JStr ''POLICE'', a_subtype = JStr ''POLICE_HIDING'',
       a_street = JUndefined, a_city = JUndefined, a_pubMillis = pub,
       a_location_x = x, a_location_y = JNum 44 \<rparr>"

definition examplePayloads :: "rawAlert list option list" where
  "examplePayloads =
     [Some [exampleAlert (JStr ''u1'') JUndefined (JNum 1000) (JNum 26),
            exampleAlert (JStr ''u2'') JUndefined (JNum 1000) (JStr ''26.5'')],
      None,
      Some [exampleAlert JUndefined JUndefined (JNum 1500) (JNum 27),
            exampleAlert (JStr ''u1'') JUndefined (JNum 2000) (JNum 26)]]"

definition okAnswer :: "request list \<Rightarrow> fetchOutcome" where
  "okAnswer urls = Fetched [\<lparr> r_status = 200, r_retryAfter = None \<rparr>]"

definition parsedAnswer :: "rawAlert list option list \<Rightarrow> request list \<Rightarrow> jsonOutcome" where
  "parsedAnswer payloads urls = Parsed payloads"

definition successCycle :: "real \<Rightarrow> rawAlert list option list \<Rightarrow> cycleEnv" where
  "successCycle t payloads =
     \<lparr> t_start = t, t_parse = t + 300, t_backoff = t + 300, t_updated = t + 300,
       t_fetched = t + 300, t_catch = t + 300, aborted = False,
       fetched = okAnswer, parsed = parsedAnswer payloads \<rparr>"

text \<open>
  A response of the primary warning feed, and an entry whose point is a string of two
  characters.
\<close>

definition exampleFeed :: "rawWarning option list" where
  "exampleFeed =
     [None,
      Some \<lparr> item_userId = JStr ''u1'', item_url = JStr ''a.mp3'', item_point = Scalar JUndefined,
             item_created = JStr ''t1'' \<rparr>,
      Some \<lparr> item_userId = JStr ''u2'', item_url = JStr ''b.mp3'',
             item_point = Arr [Scalar (JNum 1), Scalar (JNum 2), Scalar (JNum 3)],
             item_created = JStr ''t2'' \<rparr>,
      Some \<lparr> item_userId = JStr ''u3'', item_url = JStr ''c.mp3'', item_point = Scalar JNull,
             item_created = JStr ''t3'' \<rparr>,
      Some \<lparr> item_userId = JStr ''u7'', item_url = JStr ''clip.mp3'',
             item_point = Arr [Scalar (JNum 44), Scalar (JNum 26)],
             item_created = JStr ''2024-05-01'' \<rparr>,
      Some \<lparr> item_userId = JStr ''u8'', item_url = JStr ''d.mp3'',
             item_point = Obj [(''lat'', Scalar (JNum 44)), (''lng'', Scalar (JNum 26))],
             item_created = JStr ''t8'' \<rparr>]"

definition stringPointEntry :: rawWarning where
  "stringPointEntry =
     \<lparr> item_userId = JStr ''u9'', item_url = JStr ''x.mp3'', item_point = Scalar (JStr ''ab''),
       item_created = JStr ''t9'' \<rparr>"

text \<open>The three points of the clustering example, on the equator.\<close>

definition pointA :: radarPoint where
  "pointA = \<lparr> rp_id = ''A'', rp_lat = 0, rp_lng = 0, rp_desc = [] \<rparr>"

definition pointB :: radarPoint where
  "pointB = \<lparr> rp_id = ''B'', rp_lat = 0, rp_lng = 0.001, rp_desc = [] \<rparr>"

definition pointC :: radarPoint where
  "pointC = \<lparr> rp_id = ''C'', rp_lat = 0, rp_lng = 1, rp_desc = [] \<rparr>"

text \<open>Static points, three of them inside the example viewport.\<close>

definition radarAt :: "string \<Rightarrow> real \<Rightarrow> real \<Rightarrow> radarPoint" where
  "radarAt name la lg = \<lparr> rp_id = name, rp_lat = la, rp_lng = lg, rp_desc = [] \<rparr>"

definition exampleRadars :: "radarPoint list" where
  "exampleRadars =
     [radarAt ''r1'' 44.5 26, radarAt ''far'' 10 26, radarAt ''r2'' 44.6 26.1,
      radarAt ''r3'' 44.7 26.2]"

section \<open>Properties of GeoMath\<close>

lemma js_rem_360_bounds: "- 360 < js_rem a 360 \<and> js_rem a 360 < 360"
  unfolding js_rem_def js_trunc_def by (auto; linarith)

lemma js_rem_360_nonneg: "0 \<le> a \<Longrightarrow> 0 \<le> js_rem a 360 \<and> js_rem a 360 < 360"
  unfolding js_rem_def js_trunc_def by (auto; linarith)

lemma js_rem_360_cong: "\<exists>k::int. js_rem a 360 = a + 360 * of_int k"
proof
  show "js_rem a 360 = a + 360 * of_int (- js_trunc (a / 360))"
    by (simp add: js_rem_def)
qed

lemma normalizeLng_core:
  "\<exists>k::int. - 180 \<le> js_rem (js_rem (x + 180) 360 + 360) 360 - 180 \<and>
      js_rem (js_rem (x + 180) 360 + 360) 360 - 180 < 180 \<and>
      js_rem (js_rem (x + 180) 360 + 360) 360 - 180 = x + 360 * of_int k"
proof -
  obtain k1 :: int where k1: "js_rem (x + 180) 360 = x + 180 + 360 * of_int k1"
    using js_rem_360_cong by blast
  have b1: "0 \<le> js_rem (x + 180) 360 + 360"
    using js_rem_360_bounds [of "x + 180"] by linarith
  obtain k2 :: int where k2: "js_rem (js_rem (x + 180) 360 + 360) 360
       = js_rem (x + 180) 360 + 360 + 360 * of_int k2"
    using js_rem_360_cong by blast
  have b2: "0 \<le> js_rem (js_rem (x + 180) 360 + 360) 360
          \<and> js_rem (js_rem (x + 180) 360 + 360) 360 < 360"
    using js_rem_360_nonneg [OF b1] .
  have e: "js_rem (js_rem (x + 180) 360 + 360) 360 - 180 = x + 360 * of_int (k1 + k2 + 1)"
    using k1 k2 by simp
  have l: "- 180 \<le> js_rem (js_rem (x + 180) 360 + 360) 360 - 180" using b2 by linarith
  have u: "js_rem (js_rem (x + 180) 360 + 360) 360 - 180 < 180" using b2 by linarith
  from l u e show ?thesis by blast
qed

subsection \<open>Rounding to double precision\<close>


lemma roundEven_of_int [simp]: "roundEven (of_int k) = k"
  by (simp add: roundEven_def)




















subsection \<open>\<open>normalizeLng\<close> on double-precision numbers\<close>










section \<open>Properties of the TileQueryPlanner\<close>

text \<open>
  Claim C10. Without bounds \<open>buildWazeTileSnappedQuery\<close> returns a plan with no request
  boxes, no debug boxes and the zoom it was given, whatever that zoom is: it is neither
  rounded nor clamped.
\<close>

theorem null_bounds_plan:
  "buildWazeTileSnappedQuery None zoom
     = \<lparr> requestBoxes = [], debugBoxes = [], plan_tileCount = None, usedZoom = zoom \<rparr>"
  by (simp add: buildWazeTileSnappedQuery_def)



section \<open>Properties of the rate limiter\<close>

lemma parseRetryAfterToMs_nonneg: "0 \<le> parseRetryAfterToMs tn dp now v"
  by (auto simp: parseRetryAfterToMs_def DEFAULT_WAZE_RETRY_AFTER_SEC_def split: option.splits)

lemma catchError_state [simp]: "cr_state (catchError ev err st ui calls) = st"
  by (simp add: catchError_def Let_def)

lemma catchError_calls [simp]: "cr_calls (catchError ev err st ui calls) = calls"
  by (simp add: catchError_def Let_def)

lemma run_refused:
  "t_start ev < backoffUntil st \<Longrightarrow>
   run ns tn dp ev b zoom mode st ui =
     \<lparr> cr_state = st,
       cr_ui = ui \<lparr> policeError := ErrRateLimited \<lceil>(backoffUntil st - t_start ev) / 1000\<rceil>,
                   policeLoading := False \<rparr>,
       cr_calls = [] \<rparr>"
  by (simp add: run_def Let_def)

lemma run_rate_limited:
  assumes "passesGates ev b zoom mode st"
    and "fetched ev (cycleUrls b zoom mode) = Fetched rs"
    and "find (\<lambda>res. \<not> r_ok res) rs = Some r"
    and "r_status r = 429"
  shows "cr_state (run ns tn dp ev b zoom mode st ui) =
           st \<lparr> lastQueryKey := Some (cycleKey b zoom mode),
                backoffUntil := t_backoff ev + parseRetryAfterToMs tn dp (t_parse ev) (r_retryAfter r) \<rparr>"
  using assms
  by (auto simp: run_def Let_def passesGates_def cycleKey_def cycleUrls_def)

lemma sampleNumber_30: "sampleNumber ''30'' = Some 30"
  by (simp add: sampleNumber_def sampleDigit_def)

lemma sampleNumber_minus_5: "sampleNumber ''-5'' = Some (- 5)"
  by (simp add: sampleNumber_def sampleDigit_def)

lemma sampleNumber_date: "sampleNumber ''Wed, 21 Oct 2015 07:28:00 GMT'' = None"
  by (simp add: sampleNumber_def sampleDigit_def)

lemma sampleNumber_soon: "sampleNumber ''soon'' = None"
  by (simp add: sampleNumber_def sampleDigit_def)

lemma rateLimitedCycle_gates: "0 \<le> t - 2500 \<Longrightarrow> passesGates (rateLimitedCycle t v) b zoom mode initialState"
  by (simp add: passesGates_def rateLimitedCycle_def initialState_def MIN_WAZE_FETCH_INTERVAL_MS_def)

text \<open>
  Claim C4, as stated, fails: a retry directive that is a number but not a positive one is
  not multiplied by 1000. For the directive \<open>-5\<close> the result is not -5000; whatever the
  date parser answers, the result is never negative (\<open>parseRetryAfterToMs_nonneg\<close>).
\<close>

theorem retry_after_negative_counterexample:
  "sampleNumber ''-5'' = Some (- 5) \<and>
   parseRetryAfterToMs sampleNumber sampleDateParse 1000000 (Some ''-5'') \<noteq> (- 5) * 1000"
  by (simp add: sampleNumber_minus_5 parseRetryAfterToMs_def sampleDateParse_def
      DEFAULT_WAZE_RETRY_AFTER_SEC_def)

text \<open>
  Claim C4, amended. \<open>parseRetryAfterToMs\<close> returns 30000 for a missing or empty directive;
  the value times 1000 when the directive is a finite number greater than zero; otherwise,
  the milliseconds from now until the date, floored at 0, when the directive parses as a
  date, and 30000 when it does not. In a cycle that gets past the three refusals and
  whose first response that is not ok has status 429, \<open>backoffUntil\<close> becomes the time of
  that moment plus that duration.
\<close>

theorem retry_after_cases:
  "(v = None \<or> v = Some [] \<longrightarrow> parseRetryAfterToMs tn dp now v = 30000) \<and>
   (v = Some s \<and> s \<noteq> [] \<and> tn s = Some n \<and> n > 0 \<longrightarrow>
      parseRetryAfterToMs tn dp now v = n * 1000) \<and>
   (v = Some s \<and> s \<noteq> [] \<and> (tn s = None \<or> (\<exists>m. tn s = Some m \<and> m \<le> 0)) \<and> dp s = Some d \<longrightarrow>
      parseRetryAfterToMs tn dp now v = max 0 (d - now)) \<and>
   (v = Some s \<and> s \<noteq> [] \<and> (tn s = None \<or> (\<exists>m. tn s = Some m \<and> m \<le> 0)) \<and> dp s = None \<longrightarrow>
      parseRetryAfterToMs tn dp now v = 30000) \<and>
   (passesGates ev b zoom mode st \<and> fetched ev (cycleUrls b zoom mode) = Fetched rs \<and>
    find (\<lambda>res. \<not> r_ok res) rs = Some r \<and> r_status r = 429 \<longrightarrow>
      backoffUntil (cr_state (run ns tn dp ev b zoom mode st ui))
        = t_backoff ev + parseRetryAfterToMs tn dp (t_parse ev) (r_retryAfter r))"
proof (intro conjI impI)
  assume "v = None \<or> v = Some []"
  then show "parseRetryAfterToMs tn dp now v = 30000"
    by (auto simp: parseRetryAfterToMs_def DEFAULT_WAZE_RETRY_AFTER_SEC_def)
next
  assume "v = Some s \<and> s \<noteq> [] \<and> tn s = Some n \<and> n > 0"
  then show "parseRetryAfterToMs tn dp now v = n * 1000"
    by (simp add: parseRetryAfterToMs_def)
next
  assume "v = Some s \<and> s \<noteq> [] \<and> (tn s = None \<or> (\<exists>m. tn s = Some m \<and> m \<le> 0)) \<and> dp s = Some d"
  then show "parseRetryAfterToMs tn dp now v = max 0 (d - now)"
    by (auto simp: parseRetryAfterToMs_def)
next
  assume "v = Some s \<and> s \<noteq> [] \<and> (tn s = None \<or> (\<exists>m. tn s = Some m \<and> m \<le> 0)) \<and> dp s = None"
  then show "parseRetryAfterToMs tn dp now v = 30000"
    by (auto simp: parseRetryAfterToMs_def DEFAULT_WAZE_RETRY_AFTER_SEC_def)
next
  assume "passesGates ev b zoom mode st \<and> fetched ev (cycleUrls b zoom mode) = Fetched rs \<and>
    find (\<lambda>res. \<not> r_ok res) rs = Some r \<and> r_status r = 429"
  then show "backoffUntil (cr_state (run ns tn dp ev b zoom mode st ui))
        = t_backoff ev + parseRetryAfterToMs tn dp (t_parse ev) (r_retryAfter r)"
    using run_rate_limited [of ev b zoom mode st rs r ns tn dp ui] by simp
qed

theorem retry_after_cases_witness:
  "parseRetryAfterToMs sampleNumber sampleDateParse 1445412470000 None = 30000 \<and>
   parseRetryAfterToMs sampleNumber sampleDateParse 1445412470000 (Some ''30'') = 30000 \<and>
   parseRetryAfterToMs sampleNumber sampleDateParse 1445412470000
     (Some ''Wed, 21 Oct 2015 07:28:00 GMT'') = 10000 \<and>
   parseRetryAfterToMs sampleNumber sampleDateParse 1445412470000 (Some ''-5'') = 30000 \<and>
   parseRetryAfterToMs sampleNumber sampleDateParse 1445412470000 (Some ''soon'') = 30000 \<and>
   backoffUntil (cr_state (run sampleNumStr sampleNumber sampleDateParse
      (rateLimitedCycle 1445412470000 (Some ''Wed, 21 Oct 2015 07:28:00 GMT''))
      exampleBounds 10 Auto initialState initialUi)) = 1445412480000"
proof -
  let ?date = "''Wed, 21 Oct 2015 07:28:00 GMT''"
  let ?now = "1445412470000 :: real"
  let ?ev = "rateLimitedCycle ?now (Some ?date)"
  let ?r = "\<lparr> r_status = 429, r_retryAfter = Some ?date \<rparr>"
  have d: "sampleDateParse ?date = Some 1445412480000" "sampleDateParse ''-5'' = None"
    "sampleDateParse ''soon'' = None"
    by (simp_all add: sampleDateParse_def)
  have c1: "parseRetryAfterToMs sampleNumber sampleDateParse ?now None = 30000"
    using retry_after_cases [where v = None and tn = sampleNumber and dp = sampleDateParse
        and now = ?now]
    by simp
  have c2: "parseRetryAfterToMs sampleNumber sampleDateParse ?now (Some ''30'') = 30000"
    using retry_after_cases [where v = "Some ''30''" and s = "''30''" and n = 30
        and tn = sampleNumber and dp = sampleDateParse and now = ?now] sampleNumber_30
    by simp
  have c3: "parseRetryAfterToMs sampleNumber sampleDateParse ?now (Some ?date) = 10000"
    using retry_after_cases [where v = "Some ?date" and s = ?date and d = 1445412480000
        and tn = sampleNumber and dp = sampleDateParse and now = ?now] sampleNumber_date d(1)
    by simp
  have c4: "parseRetryAfterToMs sampleNumber sampleDateParse ?now (Some ''-5'') = 30000"
    using retry_after_cases [where v = "Some ''-5''" and s = "''-5''"
        and tn = sampleNumber and dp = sampleDateParse and now = ?now] sampleNumber_minus_5 d(2)
    by simp
  have c5: "parseRetryAfterToMs sampleNumber sampleDateParse ?now (Some ''soon'') = 30000"
    using retry_after_cases [where v = "Some ''soon''" and s = "''soon''"
        and tn = sampleNumber and dp = sampleDateParse and now = ?now] sampleNumber_soon d(3)
    by simp
  have g: "passesGates ?ev exampleBounds 10 Auto initialState"
    by (rule rateLimitedCycle_gates) simp
  have f: "fetched ?ev (cycleUrls exampleBounds 10 Auto) = Fetched [?r]"
    by (simp add: rateLimitedCycle_def rateLimitedAnswer_def)
  have n: "find (\<lambda>res. \<not> r_ok res) [?r] = Some ?r"
    by (simp add: r_ok_def)
  have t: "t_backoff ?ev = ?now + 300" "t_parse ?ev = ?now + 300"
    by (simp_all add: rateLimitedCycle_def)
  have p: "parseRetryAfterToMs sampleNumber sampleDateParse (?now + 300) (Some ?date) = 9700"
    using retry_after_cases [where v = "Some ?date" and s = ?date and d = 1445412480000
        and tn = sampleNumber and dp = sampleDateParse and now = "?now + 300"] sampleNumber_date d(1)
    by simp
  have c6: "backoffUntil (cr_state (run sampleNumStr sampleNumber sampleDateParse ?ev
      exampleBounds 10 Auto initialState initialUi)) = 1445412480000"
    using retry_after_cases [where tn = sampleNumber and dp = sampleDateParse and ev = ?ev
        and b = exampleBounds and zoom = 10 and mode = Auto and st = initialState
        and rs = "[?r]" and r = ?r and ns = sampleNumStr and ui = initialUi] g f n t p
    by simp
  from c1 c2 c3 c4 c5 c6 show ?thesis by blast
qed

section \<open>Properties of the maps in insertion order\<close>

lemma set_mapSet: "set (mapSet m k v) \<subseteq> insert (k, v) (set m)"
  by (induction m) (auto split: if_splits)

lemma set_foldl_mapSet:
  "set (foldl (\<lambda>m (k, v). mapSet m k v) m es) \<subseteq> set m \<union> set es"
proof (induction es arbitrary: m)
  case Nil
  show ?case by simp
next
  case (Cons e es)
  obtain k v where e: "e = (k, v)" by (cases e)
  have "set (foldl (\<lambda>m (k, v). mapSet m k v) (mapSet m k v) es) \<subseteq> set (mapSet m k v) \<union> set es"
    by (rule Cons.IH)
  with set_mapSet [of m k v] show ?case unfolding e by auto
qed

lemma set_newMap: "set (newMap es) \<subseteq> set es"
  using set_foldl_mapSet [of "[]" es] by (simp add: newMap_def)

lemma mapGet_newMap_key:
  "mapGet (newMap (map (\<lambda>w. (f w, w)) prev)) k = Some w \<Longrightarrow> f w = k"
proof -
  assume "mapGet (newMap (map (\<lambda>w. (f w, w)) prev)) k = Some w"
  then have "(k, w) \<in> set (newMap (map (\<lambda>w. (f w, w)) prev))"
    by (simp add: mapGet_def map_of_SomeD)
  with set_newMap have "(k, w) \<in> set (map (\<lambda>w. (f w, w)) prev)" by blast
  then show "f w = k" by auto
qed

lemma mapSet_keys: "map fst (mapSet m k v) = (if k \<in> fst ` set m then map fst m else map fst m @ [k])"
  by (induction m) (auto split: if_splits)

lemma mapSet_distinct: "distinct (map fst m) \<Longrightarrow> distinct (map fst (mapSet m k v))"
  by (simp add: mapSet_keys)

lemma map_of_mapSet: "map_of (mapSet m k v) = (map_of m)(k \<mapsto> v)"
  by (induction m) (auto simp: fun_eq_iff)

lemma foldl_mapSet_props:
  "distinct (map fst m) \<Longrightarrow>
   distinct (map fst (foldl (\<lambda>m (k, v). mapSet m k v) m es)) \<and>
   map_of (foldl (\<lambda>m (k, v). mapSet m k v) m es) = map_of m ++ map_of (rev es) \<and>
   fst ` set (foldl (\<lambda>m (k, v). mapSet m k v) m es) = fst ` set m \<union> fst ` set es"
proof (induction es arbitrary: m)
  case Nil
  then show ?case by simp
next
  case (Cons e es)
  obtain k v where e: "e = (k, v)" by (cases e)
  have d: "distinct (map fst (mapSet m k v))" using Cons.prems by (rule mapSet_distinct)
  have s: "fst ` set (mapSet m k v) = insert k (fst ` set m)"
    using mapSet_keys [of m k v] by (metis (no_types, lifting) Un_insert_right append_Nil2 insert_absorb list.set(2) list.set_map set_append)
  from Cons.IH [OF d] show ?case
    unfolding e by (auto simp: map_of_mapSet s map_add_def fun_eq_iff split: option.splits)
qed

lemma newMap_props:
  "distinct (map fst (newMap es)) \<and> map_of (newMap es) = map_of (rev es) \<and>
   fst ` set (newMap es) = fst ` set es"
  using foldl_mapSet_props [of "[]" es] by (simp add: newMap_def)

lemma map_of_rev_keyed:
  "map_of (rev (map (\<lambda>p. (f p, p)) xs)) k =
     (if filter (\<lambda>q. f q = k) xs = [] then None else Some (last (filter (\<lambda>q. f q = k) xs)))"
  by (induction xs rule: rev_induct) auto

lemma dedupe_props:
  "distinct (map f (mapValues (newMap (map (\<lambda>p. (f p, p)) xs)))) \<and>
   set (map f (mapValues (newMap (map (\<lambda>p. (f p, p)) xs)))) = set (map f xs) \<and>
   (\<forall>p \<in> set (mapValues (newMap (map (\<lambda>p. (f p, p)) xs))).
      p \<in> set xs \<and> p = last (filter (\<lambda>q. f q = f p) xs))"
proof -
  let ?es = "map (\<lambda>p. (f p, p)) xs"
  let ?m = "newMap ?es"
  note P = newMap_props [of ?es]
  have mem: "p \<in> set xs \<and> k = f p \<and> p = last (filter (\<lambda>q. f q = f p) xs)" if "(k, p) \<in> set ?m" for k p
  proof -
    from P have dm: "distinct (map fst ?m)" and mo: "map_of ?m = map_of (rev ?es)" by blast+
    have "map_of ?m k = Some p" using dm that by (simp add: map_of_eq_Some_iff)
    with mo have "map_of (rev ?es) k = Some p" by simp
    then have l: "filter (\<lambda>q. f q = k) xs \<noteq> []" "p = last (filter (\<lambda>q. f q = k) xs)"
      by (auto simp: map_of_rev_keyed split: if_splits)
    then have "p \<in> set (filter (\<lambda>q. f q = k) xs)" using last_in_set by metis
    then have "p \<in> set xs" "f p = k" by auto
    with l show ?thesis by simp
  qed
  have keys: "map f (mapValues ?m) = map fst ?m"
  proof -
    have "\<forall>e \<in> set ?m. f (snd e) = fst e" using mem by force
    then show ?thesis by (simp add: mapValues_def)
  qed
  have a: "distinct (map f (mapValues ?m))" using P keys by simp
  have b: "set (map f (mapValues ?m)) = set (map f xs)"
  proof -
    have "set (map fst ?m) = fst ` set ?es" using P by simp
    also have "\<dots> = set (map f xs)" by force
    finally show ?thesis using keys by simp
  qed
  have c: "\<forall>p \<in> set (mapValues ?m). p \<in> set xs \<and> p = last (filter (\<lambda>q. f q = f p) xs)"
    using mem by (force simp: mapValues_def)
  from a b c show ?thesis by blast
qed

section \<open>Properties of the primary warning feed\<close>

lemma nextWarnings_ids:
  assumes "\<And>k w. mapGet m k = Some w \<Longrightarrow> w_id w = k"
  shows "map w_id (nextWarnings ns m data) = map (warningId ns) (keptItems data)"
proof (induction data)
  case Nil
  show ?case by (simp add: keptItems_def)
next
  case (Cons x data)
  show ?case
  proof (cases x)
    case None
    with Cons show ?thesis by (simp add: keptItems_def)
  next
    case (Some item)
    show ?thesis
    proof (cases "passesShapeCheck item")
      case False
      with Some Cons show ?thesis
        by (auto simp: keptItems_def passesShapeCheck_def)
    next
      case True
      with Some Cons assms show ?thesis
        by (auto simp: keptItems_def passesShapeCheck_def Let_def split: option.splits)
    qed
  qed
qed

lemma passesShapeCheck_cases:
  "passesShapeCheck item \<longleftrightarrow>
     isTwoElementArray (item_point item) \<or>
     (\<exists>s. item_point item = Scalar (JStr s) \<and> length s = 2) \<or>
     (\<exists>props. item_point item = Obj props \<and> map_of props ''length'' = Some (Scalar (JNum 2)))"
proof (cases "item_point item")
  case (Scalar v)
  then show ?thesis
    by (cases v) (auto simp: passesShapeCheck_def isTwoElementArray_def)
next
  case (Arr xs)
  have "length xs = 2 \<longleftrightarrow> (\<exists>a b. xs = [a, b])"
    by (cases xs; cases "tl xs"; cases "tl (tl xs)") auto
  with Arr show ?thesis
    by (auto simp: passesShapeCheck_def isTwoElementArray_def split: list.splits)
next
  case (Obj props)
  then show ?thesis
    by (auto simp: passesShapeCheck_def isTwoElementArray_def split: option.splits)
qed

text \<open>
  Claim C8, as stated, fails: the shape check reads the \<open>length\<close> of the point and never
  tests that the point is an array. An entry whose point is the string \<open>ab\<close> is not
  dropped: it is published with its identity key.
\<close>

theorem string_point_counterexample:
  "\<not> isTwoElementArray (item_point stringPointEntry) \<and>
   map w_id (fetchWarnings sampleNumStr (Some ''token'') True (FeedArray [Some stringPointEntry]) [])
     = [''u9-x.mp3-t9'']"
  by (simp add: stringPointEntry_def isTwoElementArray_def fetchWarnings_def updateWarnings_def
      newMap_def mapGet_def warningId_def)

text \<open>
  Claim C8, amended. The published warnings are in one-to-one correspondence, in order,
  with the entries of the response array that are objects and whose point passes the shape
  check; every other entry is dropped, and the warning of a kept entry has the identity
  key \<open>userId-url-created\<close> of that entry. The points that pass the check are the arrays
  of two elements, the strings of two characters and the objects with a \<open>length\<close> property
  equal to 2: a missing or null point, a number, a boolean and an array of another length
  do not pass. This is what a poll publishes when the token is configured, the response is
  an array and the component is mounted.
\<close>

theorem warnings_length_check_and_id:
  "map w_id (updateWarnings ns prev data) = map (warningId ns) (keptItems data) \<and>
   (\<forall>w \<in> set (updateWarnings ns prev data).
      \<exists>item. Some item \<in> set data \<and> passesShapeCheck item \<and> w_id w = warningId ns item) \<and>
   (passesShapeCheck entry \<longleftrightarrow>
      isTwoElementArray (item_point entry) \<or>
      (\<exists>s. item_point entry = Scalar (JStr s) \<and> length s = 2) \<or>
      (\<exists>props. item_point entry = Obj props \<and>
                 map_of props ''length'' = Some (Scalar (JNum 2)))) \<and>
   (\<forall>token. token \<noteq> [] \<longrightarrow>
      fetchWarnings ns (Some token) True (FeedArray data) prev = updateWarnings ns prev data)"
proof (intro conjI)
  show ids: "map w_id (updateWarnings ns prev data) = map (warningId ns) (keptItems data)"
    unfolding updateWarnings_def
    by (rule nextWarnings_ids) (rule mapGet_newMap_key)
  show "\<forall>w \<in> set (updateWarnings ns prev data).
      \<exists>item. Some item \<in> set data \<and> passesShapeCheck item \<and> w_id w = warningId ns item"
  proof
    fix w assume "w \<in> set (updateWarnings ns prev data)"
    then have "w_id w \<in> set (map w_id (updateWarnings ns prev data))" by simp
    then have "w_id w \<in> set (map (warningId ns) (keptItems data))" by (simp only: ids)
    then obtain item where i: "item \<in> set (keptItems data)" "w_id w = warningId ns item" by auto
    from i(1) have "Some item \<in> set data" "passesShapeCheck item"
      by (auto simp: keptItems_def split: option.splits)
    with i(2) show "\<exists>item. Some item \<in> set data \<and> passesShapeCheck item \<and> w_id w = warningId ns item"
      by blast
  qed
  show "passesShapeCheck entry \<longleftrightarrow>
      isTwoElementArray (item_point entry) \<or>
      (\<exists>s. item_point entry = Scalar (JStr s) \<and> length s = 2) \<or>
      (\<exists>props. item_point entry = Obj props \<and>
                 map_of props ''length'' = Some (Scalar (JNum 2)))"
    by (rule passesShapeCheck_cases)
  show "\<forall>token. token \<noteq> [] \<longrightarrow>
      fetchWarnings ns (Some token) True (FeedArray data) prev = updateWarnings ns prev data"
    by (simp add: fetchWarnings_def)
qed

theorem warnings_length_check_and_id_witness:
  "map w_id (fetchWarnings sampleNumStr (Some ''token'') True (FeedArray exampleFeed) [])
     = [''u7-clip.mp3-2024-05-01''] \<and>
   passesShapeCheck stringPointEntry"
  using warnings_length_check_and_id [of sampleNumStr "[]" exampleFeed stringPointEntry]
  by (simp add: keptItems_def exampleFeed_def passesShapeCheck_def warningId_def
      stringPointEntry_def)

section \<open>Properties of the AlertFetchOrchestrator\<close>

lemma toAlert_Some:
  "toAlert ns a = Some p \<Longrightarrow>
     al_raw p = a \<and> a_location_y a = JNum (lat (al_location p)) \<and>
     a_location_x a = JNum (lng (al_location p)) \<and>
     al_id p = js_or (a_uuid a) (js_or (a_id a)
                 (JStr (compositeId ns a (lng (al_location p)) (lat (al_location p)))))"
  by (auto simp: toAlert_def split: jsval.splits)

lemma policeOf_mem:
  "p \<in> set (policeOf ns raw) \<Longrightarrow>
     al_raw p \<in> set raw \<and> isPoliceAlert ns (al_raw p) \<and> toAlert ns (al_raw p) = Some p"
  unfolding policeOf_def List.map_filter_def
  using toAlert_Some by fastforce

lemma run_success:
  assumes "passesGates ev b zoom mode st"
    and "fetched ev (cycleUrls b zoom mode) = Fetched rs"
    and "find (\<lambda>res. \<not> r_ok res) rs = None"
    and "parsed ev (cycleUrls b zoom mode) = Parsed payloads"
    and "\<not> aborted ev"
  shows "policeAlerts (cr_ui (run ns tn dp ev b zoom mode st ui)) = publishedAlerts ns payloads"
  using assms
  by (auto simp: run_def Let_def passesGates_def cycleKey_def cycleUrls_def)

lemma sampleNumStr_vals:
  "sampleNumStr 26 = ''26''" "sampleNumStr 27 = ''27''" "sampleNumStr 44 = ''44''"
  "sampleNumStr 1000 = ''1000''" "sampleNumStr 1500 = ''1500''" "sampleNumStr 2000 = ''2000''"
  by (simp_all add: sampleNumStr_def showNat.simps digitChar_def)

lemma isPolice_example: "isPoliceAlert ns (exampleAlert u i p x)"
  by (simp add: isPoliceAlert_def exampleAlert_def js_or_def Let_def toLowerCase_def
      lowerChar_def js_includes_def)

text \<open>
  Claim C2, as stated, fails: an alert without \<open>uuid\<close> that has an \<open>id\<close> is published
  under that \<open>id\<close>, not under the composite of type, coordinates and timestamp.
\<close>

theorem alert_key_counterexample:
  "map al_id (publishedAlerts sampleNumStr
       [Some [exampleAlert JUndefined (JStr ''alert-1'') (JNum 1000) (JNum 26)]])
     = [JStr ''alert-1''] \<and>
   JStr ''alert-1'' \<noteq>
     JStr (compositeId sampleNumStr
             (exampleAlert JUndefined (JStr ''alert-1'') (JNum 1000) (JNum 26)) 26 44)"
proof -
  have "isPoliceAlert sampleNumStr (exampleAlert JUndefined (JStr ''alert-1'') (JNum 1000) (JNum 26))"
    by (rule isPolice_example)
  then have "map al_id (publishedAlerts sampleNumStr
       [Some [exampleAlert JUndefined (JStr ''alert-1'') (JNum 1000) (JNum 26)]])
     = [JStr ''alert-1'']"
    by (simp add: publishedAlerts_def dedupeById_def policeOf_def flattenAlerts_def
        List.map_filter_simps toAlert_def exampleAlert_def js_or_def newMap_def mapValues_def)
  moreover have "compositeId sampleNumStr
      (exampleAlert JUndefined (JStr ''alert-1'') (JNum 1000) (JNum 26)) 26 44 = ''POLICE-26-44-1000''"
    by (simp add: compositeId_def exampleAlert_def js_or_def sampleNumStr_vals)
  ultimately show ?thesis by simp
qed

text \<open>
  Claim C2, amended. Every published alert comes from a fetched entry that is a police
  alert and whose two coordinates are numbers, so an entry whose coordinates are not both
  numbers is never published. Its identity key is the \<open>uuid\<close> of the entry if that is
  present (truthy), otherwise the \<open>id\<close> of the entry if that is present, and otherwise the
  composite of type, coordinates and timestamp. The published keys are pairwise distinct,
  they are the keys of all the police alerts with numeric coordinates, and the alert
  published under a key is the last one fetched with that key. A cycle that succeeds and
  is not cancelled publishes exactly this list.
\<close>

theorem published_alerts:
  "(\<forall>p \<in> set (publishedAlerts ns payloads).
      al_raw p \<in> set (flattenAlerts payloads) \<and> isPoliceAlert ns (al_raw p) \<and>
      a_location_y (al_raw p) = JNum (lat (al_location p)) \<and>
      a_location_x (al_raw p) = JNum (lng (al_location p)) \<and>
      al_id p =
        (if truthy (a_uuid (al_raw p)) then a_uuid (al_raw p)
         else if truthy (a_id (al_raw p)) then a_id (al_raw p)
         else JStr (compositeId ns (al_raw p) (lng (al_location p)) (lat (al_location p)))) \<and>
      p = last (filter (\<lambda>q. al_id q = al_id p) (policeOf ns (flattenAlerts payloads)))) \<and>
   (\<forall>a \<in> set (flattenAlerts payloads).
      \<not> (is_number (a_location_y a) \<and> is_number (a_location_x a)) \<longrightarrow>
      a \<notin> al_raw ` set (publishedAlerts ns payloads)) \<and>
   distinct (map al_id (publishedAlerts ns payloads)) \<and>
   set (map al_id (publishedAlerts ns payloads))
     = set (map al_id (policeOf ns (flattenAlerts payloads))) \<and>
   (passesGates ev b zoom mode st \<and> fetched ev (cycleUrls b zoom mode) = Fetched rs \<and>
    find (\<lambda>res. \<not> r_ok res) rs = None \<and> parsed ev (cycleUrls b zoom mode) = Parsed payloads \<and>
    \<not> aborted ev \<longrightarrow>
      policeAlerts (cr_ui (run ns tn dp ev b zoom mode st ui)) = publishedAlerts ns payloads)"
proof -
  let ?raw = "flattenAlerts payloads"
  let ?cand = "policeOf ns ?raw"
  let ?P = "publishedAlerts ns payloads"
  have P: "?P = mapValues (newMap (map (\<lambda>p. (al_id p, p)) ?cand))"
    by (simp add: publishedAlerts_def dedupeById_def)
  note D = dedupe_props [of al_id ?cand, folded P]
  have one: "al_raw p \<in> set ?raw \<and> isPoliceAlert ns (al_raw p) \<and>
      a_location_y (al_raw p) = JNum (lat (al_location p)) \<and>
      a_location_x (al_raw p) = JNum (lng (al_location p)) \<and>
      al_id p =
        (if truthy (a_uuid (al_raw p)) then a_uuid (al_raw p)
         else if truthy (a_id (al_raw p)) then a_id (al_raw p)
         else JStr (compositeId ns (al_raw p) (lng (al_location p)) (lat (al_location p)))) \<and>
      p = last (filter (\<lambda>q. al_id q = al_id p) ?cand)" if "p \<in> set ?P" for p
  proof -
    from that D have c: "p \<in> set ?cand" and l: "p = last (filter (\<lambda>q. al_id q = al_id p) ?cand)"
      by blast+
    from policeOf_mem [OF c] have m: "al_raw p \<in> set ?raw" "isPoliceAlert ns (al_raw p)"
      "toAlert ns (al_raw p) = Some p" by blast+
    from toAlert_Some [OF m(3)] m(1,2) l show ?thesis by (simp add: js_or_def)
  qed
  have two: "a \<notin> al_raw ` set ?P"
    if "a \<in> set ?raw" "\<not> (is_number (a_location_y a) \<and> is_number (a_location_x a))" for a
  proof
    assume "a \<in> al_raw ` set ?P"
    then obtain p where "p \<in> set ?P" "a = al_raw p" by blast
    with one [of p] have "is_number (a_location_y a) \<and> is_number (a_location_x a)" by simp
    with that(2) show False by blast
  qed
  have five: "policeAlerts (cr_ui (run ns tn dp ev b zoom mode st ui)) = ?P"
    if "passesGates ev b zoom mode st \<and> fetched ev (cycleUrls b zoom mode) = Fetched rs \<and>
    find (\<lambda>res. \<not> r_ok res) rs = None \<and> parsed ev (cycleUrls b zoom mode) = Parsed payloads \<and>
    \<not> aborted ev"
    using that run_success by blast
  from one two five D show ?thesis by blast
qed

theorem published_alerts_witness:
  "map al_id (publishedAlerts sampleNumStr examplePayloads) = [JStr ''u1'', JStr ''POLICE-27-44-1500''] \<and>
   map al_pubMillis (publishedAlerts sampleNumStr examplePayloads) = [JNum 2000, JNum 1500] \<and>
   distinct (map al_id (publishedAlerts sampleNumStr examplePayloads)) \<and>
   policeAlerts (cr_ui (run sampleNumStr sampleNumber sampleDateParse
      (successCycle 100000 examplePayloads) exampleBounds 10 Auto initialState initialUi))
     = publishedAlerts sampleNumStr examplePayloads"
proof -
  let ?ev = "successCycle 100000 examplePayloads"
  let ?r = "\<lparr> r_status = 200, r_retryAfter = None \<rparr>"
  have g: "passesGates ?ev exampleBounds 10 Auto initialState"
    by (simp add: passesGates_def successCycle_def initialState_def MIN_WAZE_FETCH_INTERVAL_MS_def)
  have f: "fetched ?ev (cycleUrls exampleBounds 10 Auto) = Fetched [?r]"
    by (simp add: successCycle_def okAnswer_def)
  have n: "find (\<lambda>res. \<not> r_ok res) [?r] = None"
    by (simp add: r_ok_def)
  have p: "parsed ?ev (cycleUrls exampleBounds 10 Auto) = Parsed examplePayloads"
    by (simp add: successCycle_def parsedAnswer_def)
  have a: "\<not> aborted ?ev" by (simp add: successCycle_def)
  have pol: "filter (isPoliceAlert sampleNumStr) (flattenAlerts examplePayloads)
      = flattenAlerts examplePayloads"
    by (simp add: flattenAlerts_def examplePayloads_def isPolice_example)
  have v: "map al_id (publishedAlerts sampleNumStr examplePayloads)
      = [JStr ''u1'', JStr ''POLICE-27-44-1500'']"
    "map al_pubMillis (publishedAlerts sampleNumStr examplePayloads) = [JNum 2000, JNum 1500]"
    unfolding publishedAlerts_def dedupeById_def policeOf_def pol
    by (simp_all add: flattenAlerts_def examplePayloads_def
        List.map_filter_simps toAlert_def exampleAlert_def js_or_def newMap_def mapValues_def
        compositeId_def sampleNumStr_vals)
  from published_alerts [of sampleNumStr examplePayloads ?ev exampleBounds 10 Auto initialState
      "[?r]" sampleNumber sampleDateParse initialUi] g f n p a v
  show ?thesis by simp
qed

section \<open>Properties of the PointClusterer\<close>

lemma absorbPass_mset:
  "absorbPass near cl xs = (c, kept, ch) \<Longrightarrow> mset c + mset kept = mset cl + mset xs"
proof (induction xs arbitrary: c kept ch)
  case Nil
  then show ?case by simp
next
  case (Cons x xs)
  obtain c' k' ch' where p: "absorbPass near cl xs = (c', k', ch')"
    by (cases "absorbPass near cl xs") auto
  from Cons.IH [OF p] Cons.prems p show ?case
    by (auto split: if_splits)
qed

lemma absorbPass_prefix:
  "absorbPass near cl xs = (c, kept, ch) \<Longrightarrow> \<exists>ys. c = cl @ ys"
proof (induction xs arbitrary: c kept ch)
  case Nil
  then show ?case by simp
next
  case (Cons x xs)
  obtain c' k' ch' where p: "absorbPass near cl xs = (c', k', ch')"
    by (cases "absorbPass near cl xs") auto
  from Cons.IH [OF p] Cons.prems p show ?case
    by (auto split: if_splits)
qed

lemma growCluster_props:
  "growCluster near cl remaining = (c, rest) \<Longrightarrow>
     mset c + mset rest = mset cl + mset remaining \<and> (\<exists>ys. c = cl @ ys)"
proof (induction near cl remaining arbitrary: c rest rule: growCluster.induct)
  case (1 near cl remaining)
  obtain c' k' ch' where p: "absorbPass near cl remaining = (c', k', ch')"
    by (cases "absorbPass near cl remaining") auto
  note m = absorbPass_mset [OF p] and pre = absorbPass_prefix [OF p]
  show ?case
  proof (cases ch')
    case True
    with "1.prems" p have g: "growCluster near c' k' = (c, rest)"
      by (simp add: growCluster.simps [of near cl remaining])
    from "1.IH" [of c' "(k', ch')" k' ch' c rest] p True g
    have "mset c + mset rest = mset c' + mset k' \<and> (\<exists>ys. c = c' @ ys)" by simp
    with m pre show ?thesis by auto
  next
    case False
    with "1.prems" p have "c = c'" "rest = k'"
      by (simp_all add: growCluster.simps [of near cl remaining])
    with m pre show ?thesis by simp
  qed
qed

lemma clusterLoop_props:
  assumes b: "\<And>cl. itemsOf (build cl) = cl"
  shows "mset (concat (map itemsOf (clusterLoop build near remaining acc)))
           = mset (concat (map itemsOf acc)) + mset remaining \<and>
         (\<exists>new. clusterLoop build near remaining acc = acc @ new \<and>
            (\<forall>c \<in> set new. itemsOf c \<noteq> [] \<and> c = build (itemsOf c)))"
  using b
proof (induction build near remaining acc rule: clusterLoop.induct)
  case (1 build near remaining acc)
  note b = "1.prems"
  show ?case
  proof (cases "remaining = []")
    case True
    then show ?thesis by (simp add: clusterLoop.simps [of build near "[]" acc])
  next
    case False
    obtain cl rest where g: "growCluster near [last remaining] (butlast remaining) = (cl, rest)"
      by (cases "growCluster near [last remaining] (butlast remaining)") auto
    from growCluster_props [OF g]
    have m: "mset cl + mset rest = {#last remaining#} + mset (butlast remaining)"
      and ne: "cl \<noteq> []" by auto
    have r: "{#last remaining#} + mset (butlast remaining) = mset remaining"
      using False by (metis add.commute append_butlast_last_id mset.simps(1) mset.simps(2) mset_append union_commute add_mset_add_single empty_neutral(1))
    have step: "clusterLoop build near remaining acc
        = clusterLoop build near rest (acc @ [build cl])"
      using False g by (simp add: clusterLoop.simps [of build near remaining acc])
    from "1.IH" [OF False g [symmetric] b]
    have ih: "mset (concat (map itemsOf (clusterLoop build near rest (acc @ [build cl]))))
           = mset (concat (map itemsOf (acc @ [build cl]))) + mset rest \<and>
         (\<exists>new. clusterLoop build near rest (acc @ [build cl]) = (acc @ [build cl]) @ new \<and>
            (\<forall>c \<in> set new. itemsOf c \<noteq> [] \<and> c = build (itemsOf c)))" .
    then obtain new where n: "clusterLoop build near rest (acc @ [build cl]) = (acc @ [build cl]) @ new"
      "\<forall>c \<in> set new. itemsOf c \<noteq> [] \<and> c = build (itemsOf c)" by blast
    have "mset (concat (map itemsOf (clusterLoop build near remaining acc)))
           = mset (concat (map itemsOf acc)) + mset remaining"
      using ih step m r b by (simp add: union_assoc)
    moreover have "clusterLoop build near remaining acc = acc @ (build cl # new) \<and>
       (\<forall>c \<in> set (build cl # new). itemsOf c \<noteq> [] \<and> c = build (itemsOf c))"
      using n step b ne by simp
    ultimately show ?thesis by blast
  qed
qed

lemma distinct_concat_index:
  "distinct (concat xss) \<Longrightarrow> i < length xss \<Longrightarrow> j < length xss \<Longrightarrow>
   x \<in> set (xss ! i) \<Longrightarrow> x \<in> set (xss ! j) \<Longrightarrow> i = j"
proof (induction xss arbitrary: i j)
  case Nil
  then show ?case by simp
next
  case (Cons xs xss)
  from Cons.prems(1) have d: "distinct (concat xss)"
    and dj: "set xs \<inter> set (concat xss) = {}" by auto
  show ?case
  proof (cases i)
    case 0
    show ?thesis
    proof (cases j)
      case 0
      with \<open>i = 0\<close> show ?thesis by simp
    next
      case (Suc j')
      with Cons.prems have "x \<in> set (xss ! j')" "j' < length xss" by auto
      then have "x \<in> set (concat xss)" by auto
      moreover from Cons.prems 0 have "x \<in> set xs" by simp
      ultimately show ?thesis using dj by blast
    qed
  next
    case (Suc i')
    show ?thesis
    proof (cases j)
      case 0
      from Cons.prems Suc have "x \<in> set (xss ! i')" "i' < length xss" by auto
      then have "x \<in> set (concat xss)" by auto
      moreover from Cons.prems 0 have "x \<in> set xs" by simp
      ultimately show ?thesis using dj by blast
    next
      case (Suc j')
      with Cons.prems \<open>i = Suc i'\<close> Cons.IH [OF d, of i' j'] show ?thesis by simp
    qed
  qed
qed

lemma partition_facts:
  assumes m: "mset (concat (map itemsOf cs)) = mset points"
    and c: "\<forall>c \<in> set cs. itemsOf c \<noteq> [] \<and> cnt c = length (itemsOf c)"
  shows "sum_list (map cnt cs) = length points \<and>
     (distinct points \<longrightarrow> (\<forall>p \<in> set points. \<exists>!i. i < length cs \<and> p \<in> set (itemsOf (cs ! i))))"
proof
  have "map cnt cs = map (\<lambda>c. length (itemsOf c)) cs" using c by simp
  then have "sum_list (map cnt cs) = sum_list (map (\<lambda>c. length (itemsOf c)) cs)"
    by (rule arg_cong)
  then have "sum_list (map cnt cs) = length (concat (map itemsOf cs))"
    by (simp add: length_concat comp_def)
  also have "\<dots> = length points" using m by (metis size_mset)
  finally show "sum_list (map cnt cs) = length points" .
  show "distinct points \<longrightarrow> (\<forall>p \<in> set points. \<exists>!i. i < length cs \<and> p \<in> set (itemsOf (cs ! i)))"
  proof (intro impI ballI)
    fix p assume d: "distinct points" and p: "p \<in> set points"
    from d m have dc: "distinct (concat (map itemsOf cs))"
      using mset_eq_imp_distinct_iff by blast
    from p have "p \<in> set (concat (map itemsOf cs))" using mset_eq_setD [OF m] by simp
    then obtain c where "c \<in> set cs" "p \<in> set (itemsOf c)" by auto
    then obtain i where i: "i < length cs" "p \<in> set (itemsOf (cs ! i))"
      by (metis in_set_conv_nth)
    show "\<exists>!i. i < length cs \<and> p \<in> set (itemsOf (cs ! i))"
    proof (rule ex1I [of _ i])
      show "i < length cs \<and> p \<in> set (itemsOf (cs ! i))" using i by simp
    next
      fix j assume j: "j < length cs \<and> p \<in> set (itemsOf (cs ! j))"
      from distinct_concat_index [OF dc, of j i p] i j show "j = i" by simp
    qed
  qed
qed

lemma clusterLoop_partition:
  assumes b: "\<And>cl. itemsOf (build cl) = cl" and n: "\<And>cl. cnt (build cl) = length cl"
  shows "mset (concat (map itemsOf (clusterLoop build near points []))) = mset points \<and>
     (\<forall>c \<in> set (clusterLoop build near points []). itemsOf c \<noteq> [] \<and> cnt c = length (itemsOf c))"
proof -
  from clusterLoop_props [of itemsOf build near points "[]", OF b]
  obtain new where m: "mset (concat (map itemsOf (clusterLoop build near points []))) = mset points"
    and e: "clusterLoop build near points [] = new"
    and a: "\<forall>c \<in> set new. itemsOf c \<noteq> [] \<and> c = build (itemsOf c)"
    by auto
  have "\<forall>c \<in> set new. itemsOf c \<noteq> [] \<and> cnt c = length (itemsOf c)"
  proof
    fix c assume "c \<in> set new"
    with a have "itemsOf c \<noteq> []" "c = build (itemsOf c)" by auto
    then show "itemsOf c \<noteq> [] \<and> cnt c = length (itemsOf c)" using n [of "itemsOf c"] by simp
  qed
  with m e show ?thesis by simp
qed

lemma arcsin_abs_sin: "\<bar>x\<bar> \<le> pi / 2 \<Longrightarrow> arcsin \<bar>sin x\<bar> = \<bar>x\<bar>"
proof -
  assume a: "\<bar>x\<bar> \<le> pi / 2"
  have "\<bar>sin x\<bar> = sin \<bar>x\<bar>"
  proof (cases "0 \<le> x")
    case True
    with a have "0 \<le> sin x" by (intro sin_ge_zero) (auto simp: abs_if)
    with True show ?thesis by simp
  next
    case False
    with a have "0 \<le> sin (- x)" by (intro sin_ge_zero) (auto simp: abs_if)
    with False show ?thesis by (simp add: abs_if)
  qed
  moreover have "arcsin (sin \<bar>x\<bar>) = \<bar>x\<bar>" using a by (intro arcsin_sin) auto
  ultimately show ?thesis by simp
qed

lemma haversine_equator:
  assumes "lat a = 0" "lat b = 0" "\<bar>lng b - lng a\<bar> \<le> 180"
  shows "haversineMeters a b = 6371000 * (\<bar>lng b - lng a\<bar> * pi / 180)"
proof -
  define x where "x = toRad (lng b - lng a) / 2"
  have x: "\<bar>x\<bar> = \<bar>lng b - lng a\<bar> * pi / 360" by (simp add: x_def toRad_def abs_mult)
  have "\<bar>lng b - lng a\<bar> * pi \<le> 180 * pi"
    using assms(3) by (intro mult_right_mono) simp_all
  then have xb: "\<bar>x\<bar> \<le> pi / 2" unfolding x by simp
  have s1: "\<bar>sin x\<bar> \<le> 1" by (simp add: abs_le_iff)
  have "haversineMeters a b = 2 * 6371000 * arcsin (min 1 (sqrt (sin x * sin x)))"
    using assms(1,2) by (simp add: haversineMeters_def Let_def toRad_def x_def)
  also have "sqrt (sin x * sin x) = \<bar>sin x\<bar>" by simp
  also have "min 1 \<bar>sin x\<bar> = \<bar>sin x\<bar>" using s1 by simp
  also have "arcsin \<bar>sin x\<bar> = \<bar>x\<bar>" using xb by (rule arcsin_abs_sin)
  finally show ?thesis using x by simp
qed

lemma pi_le_4: "pi \<le> 4" using pi_less_4 by simp

lemma near_facts:
  "nearPoints 200 pointA pointA" "nearPoints 200 pointB pointB" "nearPoints 200 pointC pointC"
  "nearPoints 200 pointA pointB" "nearPoints 200 pointB pointA"
  "\<not> nearPoints 200 pointA pointC" "\<not> nearPoints 200 pointC pointA"
  "\<not> nearPoints 200 pointB pointC" "\<not> nearPoints 200 pointC pointB"
proof -
  have le: "6371000 * (1 / 1000 * pi / 180) \<le> (200::real)" using pi_le_4 by simp
  have g1: "\<not> 6371000 * (1 * pi / 180) \<le> (200::real)" using pi_ge_two by simp
  have g2: "\<not> 6371000 * (999 / 1000 * pi / 180) \<le> (200::real)" using pi_ge_two by simp
  show "nearPoints 200 pointA pointA" "nearPoints 200 pointB pointB" "nearPoints 200 pointC pointC"
    by (simp_all add: nearPoints_def haversine_equator pointA_def pointB_def pointC_def)
  show "nearPoints 200 pointA pointB" "nearPoints 200 pointB pointA"
    using le by (simp_all add: nearPoints_def haversine_equator pointA_def pointB_def)
  show "\<not> nearPoints 200 pointA pointC" "\<not> nearPoints 200 pointC pointA"
    using g1 by (simp_all add: nearPoints_def haversine_equator pointA_def pointC_def)
  show "\<not> nearPoints 200 pointB pointC" "\<not> nearPoints 200 pointC pointB"
    using g2 by (simp_all add: nearPoints_def haversine_equator pointB_def pointC_def)
qed

lemma pair_mset: "{#y, z#} = {#u, v#} \<Longrightarrow> (y = u \<and> z = v) \<or> (y = v \<and> z = u)"
  by (auto simp: add_eq_conv_ex)

lemma perms3:
  assumes "mset ps = {#a, b, c#}"
  shows "ps \<in> {[a, b, c], [a, c, b], [b, a, c], [b, c, a], [c, a, b], [c, b, a]}"
proof -
  from assms have "size (mset ps) = 3" by simp
  then have "length ps = 3" by simp
  then obtain x y z where ps: "ps = [x, y, z]"
    by (auto simp: numeral_3_eq_3 length_Suc_conv)
  with assms have m: "{#x, y, z#} = {#a, b, c#}" by simp
  then have "x \<in># {#a, b, c#}" by (metis union_single_eq_member add_mset_add_single)
  then consider "x = a" | "x = b" | "x = c" by auto
  then show ?thesis
  proof cases
    case 1
    with m have "{#y, z#} = {#b, c#}" by simp
    from pair_mset [OF this] 1 ps show ?thesis by auto
  next
    case 2
    have "{#a, b, c#} = {#b, a, c#}" by (simp add: add_mset_commute)
    with m 2 have "{#y, z#} = {#a, c#}" by simp
    from pair_mset [OF this] 2 ps show ?thesis by auto
  next
    case 3
    have "{#a, b, c#} = {#c, a, b#}" by (simp add: add_mset_commute)
    with m 3 have "{#y, z#} = {#a, b#}" by simp
    from pair_mset [OF this] 3 ps show ?thesis by auto
  qed
qed

lemmas cluster_eval = clusterPoints_def clusterLoop.simps growCluster.simps near_facts

lemma abc_eval:
  "clusterPoints ns [pointA, pointB, pointC] 200
     = [buildPointCluster ns [pointC], buildPointCluster ns [pointB, pointA]]"
  "clusterPoints ns [pointA, pointC, pointB] 200
     = [buildPointCluster ns [pointB, pointA], buildPointCluster ns [pointC]]"
  "clusterPoints ns [pointB, pointA, pointC] 200
     = [buildPointCluster ns [pointC], buildPointCluster ns [pointA, pointB]]"
  "clusterPoints ns [pointB, pointC, pointA] 200
     = [buildPointCluster ns [pointA, pointB], buildPointCluster ns [pointC]]"
  "clusterPoints ns [pointC, pointA, pointB] 200
     = [buildPointCluster ns [pointB, pointA], buildPointCluster ns [pointC]]"
  "clusterPoints ns [pointC, pointB, pointA] 200
     = [buildPointCluster ns [pointA, pointB], buildPointCluster ns [pointC]]"
  by (simp_all add: cluster_eval)

lemma build_facts:
  "cl_items (buildPointCluster ns cl) = cl"
  "cl_center (buildPointCluster ns [pointA, pointB])
     = \<lparr> lat = (rp_lat pointA + rp_lat pointB) / 2, lng = (rp_lng pointA + rp_lng pointB) / 2 \<rparr>"
  "cl_center (buildPointCluster ns [pointB, pointA])
     = \<lparr> lat = (rp_lat pointA + rp_lat pointB) / 2, lng = (rp_lng pointA + rp_lng pointB) / 2 \<rparr>"
  by (simp_all add: buildPointCluster_def centerOf_def radarLoc_def Let_def pointA_def pointB_def)

text \<open>
  Claim C9. The clusters returned by \<open>clusterPoints\<close> and by \<open>clusterPoliceAlerts\<close> are a
  partition of the input: the member lists of the clusters, taken together, are the input
  as a multiset; every cluster has at least one member; the \<open>count\<close> of a cluster is the
  length of its member list; the counts add up to the length of the input; and when the
  input has no repeated point, each point is a member of exactly one cluster.
\<close>

theorem clusters_partition:
  "mset (concat (map cl_items (clusterPoints ns points r))) = mset points \<and>
   (\<forall>c \<in> set (clusterPoints ns points r). cl_items c \<noteq> [] \<and> cl_count c = length (cl_items c)) \<and>
   sum_list (map cl_count (clusterPoints ns points r)) = length points \<and>
   (distinct points \<longrightarrow>
      (\<forall>p \<in> set points. \<exists>!i. i < length (clusterPoints ns points r) \<and>
                                 p \<in> set (cl_items (clusterPoints ns points r ! i)))) \<and>
   mset (concat (map cl_items (clusterPoliceAlerts ns alerts r))) = mset alerts \<and>
   (\<forall>c \<in> set (clusterPoliceAlerts ns alerts r).
      cl_items c \<noteq> [] \<and> cl_count c = length (cl_items c)) \<and>
   sum_list (map cl_count (clusterPoliceAlerts ns alerts r)) = length alerts \<and>
   (distinct alerts \<longrightarrow>
      (\<forall>p \<in> set alerts. \<exists>!i. i < length (clusterPoliceAlerts ns alerts r) \<and>
                                 p \<in> set (cl_items (clusterPoliceAlerts ns alerts r ! i))))"
proof -
  have pb: "cl_items (buildPointCluster ns cl) = cl" "cl_count (buildPointCluster ns cl) = length cl"
    for cl by (simp_all add: buildPointCluster_def Let_def)
  have ab: "cl_items (buildAlertCluster ns cl) = cl" "cl_count (buildAlertCluster ns cl) = length cl"
    for cl by (simp_all add: buildAlertCluster_def Let_def)
  note P = clusterLoop_partition [of cl_items "buildPointCluster ns" cl_count "nearPoints r" points,
      OF pb, folded clusterPoints_def]
  note A = clusterLoop_partition [of cl_items "buildAlertCluster ns" cl_count "nearAlerts r" alerts,
      OF ab, folded clusterPoliceAlerts_def]
  from P have P1: "mset (concat (map cl_items (clusterPoints ns points r))) = mset points"
    and P2: "\<forall>c \<in> set (clusterPoints ns points r). cl_items c \<noteq> [] \<and> cl_count c = length (cl_items c)"
    by blast+
  from A have A1: "mset (concat (map cl_items (clusterPoliceAlerts ns alerts r))) = mset alerts"
    and A2: "\<forall>c \<in> set (clusterPoliceAlerts ns alerts r).
      cl_items c \<noteq> [] \<and> cl_count c = length (cl_items c)"
    by blast+
  note PF = partition_facts [OF P1 P2]
  note AF = partition_facts [OF A1 A2]
  from P1 P2 PF A1 A2 AF show ?thesis by blast
qed

theorem clusters_partition_witness:
  "sum_list (map cl_count (clusterPoints sampleNumStr [pointA, pointB, pointC] 200)) = 3 \<and>
   (\<exists>!i. i < length (clusterPoints sampleNumStr [pointA, pointB, pointC] 200) \<and>
          pointA \<in> set (cl_items (clusterPoints sampleNumStr [pointA, pointB, pointC] 200 ! i))) \<and>
   sum_list (map cl_count (clusterPoliceAlerts sampleNumStr
      (policeOf sampleNumStr (flattenAlerts examplePayloads)) 200)) = 3"
proof -
  have d: "distinct [pointA, pointB, pointC]"
    by (simp add: pointA_def pointB_def pointC_def)
  have pol: "filter (isPoliceAlert sampleNumStr) (flattenAlerts examplePayloads)
      = flattenAlerts examplePayloads"
    by (simp add: flattenAlerts_def examplePayloads_def isPolice_example)
  have l: "length (policeOf sampleNumStr (flattenAlerts examplePayloads)) = 3"
    unfolding policeOf_def pol
    by (simp add: flattenAlerts_def examplePayloads_def List.map_filter_simps toAlert_def
        exampleAlert_def)
  from clusters_partition [of sampleNumStr "[pointA, pointB, pointC]" 200
      "policeOf sampleNumStr (flattenAlerts examplePayloads)"] d l
  show ?thesis by simp
qed

text \<open>
  Claim C6. For the points A = (0, 0), B = (0, 0.001) and C = (0, 1), given in any order,
  and the radius of 200 metres, \<open>clusterPoints\<close> returns exactly two clusters: one whose
  members are A and B, one whose only member is C; the centre of the first is the mean of
  the coordinates of A and B.
\<close>

theorem abc_clusters:
  "mset ps = {#pointA, pointB, pointC#} \<Longrightarrow>
     \<exists>c1 c2. mset (clusterPoints ns ps 200) = {#c1, c2#} \<and>
        set (cl_items c1) = {pointA, pointB} \<and> set (cl_items c2) = {pointC} \<and>
        cl_center c1 = \<lparr> lat = (rp_lat pointA + rp_lat pointB) / 2,
                          lng = (rp_lng pointA + rp_lng pointB) / 2 \<rparr>"
proof -
  assume "mset ps = {#pointA, pointB, pointC#}"
  from perms3 [OF this]
  consider "ps = [pointA, pointB, pointC]" | "ps = [pointA, pointC, pointB]"
    | "ps = [pointB, pointA, pointC]" | "ps = [pointB, pointC, pointA]"
    | "ps = [pointC, pointA, pointB]" | "ps = [pointC, pointB, pointA]" by auto
  then show ?thesis
  proof cases
    case 1
    show ?thesis
      by (rule exI [of _ "buildPointCluster ns [pointB, pointA]"],
          rule exI [of _ "buildPointCluster ns [pointC]"])
        (auto simp: 1 abc_eval build_facts)
  next
    case 2
    show ?thesis
      by (rule exI [of _ "buildPointCluster ns [pointB, pointA]"],
          rule exI [of _ "buildPointCluster ns [pointC]"])
        (auto simp: 2 abc_eval build_facts)
  next
    case 3
    show ?thesis
      by (rule exI [of _ "buildPointCluster ns [pointA, pointB]"],
          rule exI [of _ "buildPointCluster ns [pointC]"])
        (auto simp: 3 abc_eval build_facts)
  next
    case 4
    show ?thesis
      by (rule exI [of _ "buildPointCluster ns [pointA, pointB]"],
          rule exI [of _ "buildPointCluster ns [pointC]"])
        (auto simp: 4 abc_eval build_facts)
  next
    case 5
    show ?thesis
      by (rule exI [of _ "buildPointCluster ns [pointB, pointA]"],
          rule exI [of _ "buildPointCluster ns [pointC]"])
        (auto simp: 5 abc_eval build_facts)
  next
    case 6
    show ?thesis
      by (rule exI [of _ "buildPointCluster ns [pointA, pointB]"],
          rule exI [of _ "buildPointCluster ns [pointC]"])
        (auto simp: 6 abc_eval build_facts)
  qed
qed

theorem abc_clusters_witness:
  "\<exists>c1 c2. mset (clusterPoints sampleNumStr [pointA, pointB, pointC] 200) = {#c1, c2#} \<and>
        set (cl_items c1) = {pointA, pointB} \<and> set (cl_items c2) = {pointC} \<and>
        cl_center c1 = \<lparr> lat = 0, lng = 0.0005 \<rparr>"
  using abc_clusters [of "[pointA, pointB, pointC]" sampleNumStr]
  by (simp add: pointA_def pointB_def)

section \<open>Properties of the ViewportPointFilter\<close>

lemma radarScan_result:
  "length visible \<le> budget \<Longrightarrow>
   radarScan budget inView ps visible (length visible) =
     (if length visible + length (filter inView ps) > budget then Inl (Suc budget)
      else Inr (visible @ filter inView ps, length visible + length (filter inView ps)))"
proof (induction ps arbitrary: visible)
  case Nil
  then show ?case by simp
next
  case (Cons p ps)
  show ?case
  proof (cases "inView p")
    case False
    with Cons show ?thesis by simp
  next
    case True
    show ?thesis
    proof (cases "length visible + 1 > budget")
      case True
      with \<open>inView p\<close> Cons.prems show ?thesis by (simp add: Let_def)
    next
      case False
      then have le: "length (visible @ [p]) \<le> budget" by simp
      from Cons.IH [OF le] \<open>inView p\<close> Cons.prems False show ?thesis
        by (simp add: Let_def)
    qed
  qed
qed

lemma normalizeLng_id: "- 180 < x \<Longrightarrow> x < 180 \<Longrightarrow> normalizeLng x = x"
proof -
  assume a: "- 180 < x" "x < 180"
  define m where "m = js_rem (js_rem (x + 180) 360 + 360) 360 - 180"
  obtain k :: int where k: "- 180 \<le> m" "m < 180" "m = x + 360 * of_int k"
    using normalizeLng_core [of x] unfolding m_def by blast
  define t where "t = real_of_int k"
  from k a have "- 1 < t" "t < 1" by (simp_all add: t_def)
  then have "k = 0" unfolding t_def by linarith
  with k(3) have "m = x" by simp
  with a show ?thesis by (simp add: normalizeLng_def Let_def m_def [symmetric])
qed

lemma pad_bounds:
  assumes "0.15 \<le> m" "m \<le> (1::real)"
  shows "0 < 50000 / (111320 * m)" "50000 / (111320 * m) < 3"
proof -
  from assms have p: "0 < 111320 * m" by simp
  then show "0 < 50000 / (111320 * m)" by simp
  have "50000 < 3 * (111320 * m)" using assms by simp
  then show "50000 / (111320 * m) < 3" using p by (simp add: pos_divide_less_eq)
qed

lemma example_inside:
  assumes "44 \<le> rp_lat p" "rp_lat p \<le> 45" "25 \<le> rp_lng p" "rp_lng p \<le> 27"
  shows "inPaddedView exampleBounds p"
proof -
  define m where "m = max 0.15 (cos ((getCenterLat exampleBounds * pi) / 180))"
  define g where "g = 50000 / (111320 * m)"
  define h :: real where "h = 50000 / 111320"
  have "0.15 \<le> m" "m \<le> 1" by (simp_all add: m_def)
  from pad_bounds [OF this] have g: "0 < g" "g < 3" by (simp_all add: g_def)
  have h: "0 < h" by (simp add: h_def)
  have eq: "inPaddedView exampleBounds p
      = isPointInBounds p (Some (latLngBounds_of (44 - h, 25 - g) (45 + h, 27 + g)))"
    unfolding g_def m_def h_def
    by (simp add: inPaddedView_def isPointInBoundsPadded_def Let_def exampleBounds_def
        SPEED_RADAR_VIEW_PADDING_METERS_def)
  have w: "normalizeLng (25 - g) = 25 - g" using g by (intro normalizeLng_id) simp_all
  have e: "normalizeLng (27 + g) = 27 + g" using g by (intro normalizeLng_id) simp_all
  have l: "normalizeLng (rp_lng p) = rp_lng p" using assms by (intro normalizeLng_id) simp_all
  show ?thesis
    unfolding eq using assms g h
    by (simp add: isPointInBounds_def Let_def latLngBounds_of_def w e l)
qed

lemma example_outside:
  assumes "rp_lat p < 43"
  shows "\<not> inPaddedView exampleBounds p"
proof -
  define g where "g = 50000 / (111320 * max 0.15 (cos ((getCenterLat exampleBounds * pi) / 180)))"
  define h :: real where "h = 50000 / 111320"
  have h: "0 < h" "h < 1" by (simp_all add: h_def)
  have eq: "inPaddedView exampleBounds p
      = isPointInBounds p (Some (latLngBounds_of (44 - h, 25 - g) (45 + h, 27 + g)))"
    unfolding g_def h_def
    by (simp add: inPaddedView_def isPointInBoundsPadded_def Let_def exampleBounds_def
        SPEED_RADAR_VIEW_PADDING_METERS_def)
  show ?thesis
    unfolding eq using assms h
    by (simp add: isPointInBounds_def Let_def latLngBounds_of_def)
qed

lemma example_filter:
  "filter (inPaddedView exampleBounds) exampleRadars
     = [radarAt ''r1'' 44.5 26, radarAt ''r2'' 44.6 26.1, radarAt ''r3'' 44.7 26.2]"
proof -
  have "inPaddedView exampleBounds (radarAt ''r1'' 44.5 26)"
    "inPaddedView exampleBounds (radarAt ''r2'' 44.6 26.1)"
    "inPaddedView exampleBounds (radarAt ''r3'' 44.7 26.2)"
    by (rule example_inside; simp add: radarAt_def)+
  moreover have "\<not> inPaddedView exampleBounds (radarAt ''far'' 10 26)"
    by (rule example_outside) (simp add: radarAt_def)
  ultimately show ?thesis by (simp add: exampleRadars_def)
qed

text \<open>
  Claim C5. With the layer shown, the dataset loaded and a viewport at or above the zoom
  floor: if the number of points in the padded viewport exceeds the budget, the filter
  reports \<open>tooMany\<close> and renders nothing; if it does not, the filter does not report
  \<open>tooMany\<close>, counts the points in view, and the rendered clusters hold exactly the points
  in view. In every case what is rendered is nothing or all the points in view, never a
  proper part of them.
\<close>

theorem viewport_filter_binary:
  "(showSpeedRadars \<and> \<not> loading \<and> mapZoom \<ge> MIN_SPEED_RADAR_RENDER_ZOOM \<longrightarrow>
      (length (filter (inPaddedView b) active) > budget \<longrightarrow>
         rv_tooMany (speedRadarsInViewWith budget ns showSpeedRadars (Some b) mapZoom loading active) \<and>
         rv_clusters (speedRadarsInViewWith budget ns showSpeedRadars (Some b) mapZoom loading active) = []) \<and>
      (length (filter (inPaddedView b) active) \<le> budget \<longrightarrow>
         \<not> rv_tooMany (speedRadarsInViewWith budget ns showSpeedRadars (Some b) mapZoom loading active) \<and>
         rv_inViewCount (speedRadarsInViewWith budget ns showSpeedRadars (Some b) mapZoom loading active)
           = length (filter (inPaddedView b) active) \<and>
         mset (concat (map cl_items
            (rv_clusters (speedRadarsInViewWith budget ns showSpeedRadars (Some b) mapZoom loading active))))
           = mset (filter (inPaddedView b) active))) \<and>
   (rv_clusters (speedRadarsInViewWith budget ns showSpeedRadars (Some b) mapZoom loading active) = [] \<or>
    mset (concat (map cl_items
       (rv_clusters (speedRadarsInViewWith budget ns showSpeedRadars (Some b) mapZoom loading active))))
      = mset (filter (inPaddedView b) active))"
proof -
  let ?n = "length (filter (inPaddedView b) active)"
  let ?v = "speedRadarsInViewWith budget ns showSpeedRadars (Some b) mapZoom loading active"
  have scan: "radarScan budget (\<lambda>p. isPointInBoundsPadded p (Some b) SPEED_RADAR_VIEW_PADDING_METERS)
      active [] 0 =
     (if ?n > budget then Inl (Suc budget) else Inr (filter (inPaddedView b) active, ?n))"
    using radarScan_result [of "[]" budget "inPaddedView b" active]
    by (simp add: inPaddedView_def [abs_def])
  have part: "mset (concat (map cl_items (clusterPoints ns xs r))) = mset xs" for xs r
    using clusterLoop_partition [of cl_items "buildPointCluster ns" cl_count "nearPoints r" xs]
    by (simp add: clusterPoints_def buildPointCluster_def Let_def)
  have on: "?v = (if ?n > budget then \<lparr> rv_clusters = [], rv_inViewCount = Suc budget, rv_tooMany = True \<rparr>
       else \<lparr> rv_clusters = clusterPoints ns (filter (inPaddedView b) active) SPEED_RADAR_CLUSTER_RADIUS_METERS,
              rv_inViewCount = ?n, rv_tooMany = False \<rparr>)"
    if "showSpeedRadars \<and> \<not> loading \<and> mapZoom \<ge> MIN_SPEED_RADAR_RENDER_ZOOM"
    using that by (simp add: speedRadarsInViewWith_def scan)
  have off: "rv_clusters ?v = []"
    if "\<not> (showSpeedRadars \<and> \<not> loading \<and> mapZoom \<ge> MIN_SPEED_RADAR_RENDER_ZOOM)"
    using that by (auto simp: speedRadarsInViewWith_def)
  show ?thesis
  proof (cases "showSpeedRadars \<and> \<not> loading \<and> mapZoom \<ge> MIN_SPEED_RADAR_RENDER_ZOOM")
    case True
    from on [OF True] True part show ?thesis by auto
  next
    case False
    with off [OF False] show ?thesis by blast
  qed
qed

theorem viewport_filter_binary_witness:
  "rv_tooMany (speedRadarsInViewWith 2 sampleNumStr True (Some exampleBounds) 8 False exampleRadars) \<and>
   rv_clusters (speedRadarsInViewWith 2 sampleNumStr True (Some exampleBounds) 8 False exampleRadars) = [] \<and>
   \<not> rv_tooMany (speedRadarsInViewWith 3 sampleNumStr True (Some exampleBounds) 8 False exampleRadars) \<and>
   rv_inViewCount (speedRadarsInViewWith 3 sampleNumStr True (Some exampleBounds) 8 False exampleRadars) = 3 \<and>
   mset (concat (map cl_items (rv_clusters
      (speedRadarsInViewWith 3 sampleNumStr True (Some exampleBounds) 8 False exampleRadars))))
     = {#radarAt ''r1'' 44.5 26, radarAt ''r2'' 44.6 26.1, radarAt ''r3'' 44.7 26.2#}"
  using viewport_filter_binary [where showSpeedRadars = True and loading = False and mapZoom = 8
        and b = exampleBounds and active = exampleRadars and budget = 2 and ns = sampleNumStr]
    viewport_filter_binary [where showSpeedRadars = True and loading = False and mapZoom = 8
        and b = exampleBounds and active = exampleRadars and budget = 3 and ns = sampleNumStr]
  by (simp add: example_filter MIN_SPEED_RADAR_RENDER_ZOOM_def)

section \<open>The tile cap of the TileQueryPlanner\<close>

lemma pi_ge_3: "3 \<le> pi"
proof -
  have "sin (pi / 6) \<le> pi / 6" by (rule sin_x_le_x) simp
  then show ?thesis by (simp add: sin_30)
qed

lemma sin_lower: "0 \<le> y \<Longrightarrow> y - y ^ 3 / 6 \<le> sin (y::real)"
proof -
  assume y: "0 \<le> y"
  have "(\<Sum>m<3. sin_coeff m * y ^ m) = y"
    by (simp add: sin_coeff_def numeral_3_eq_3 lessThan_Suc)
  with Maclaurin_sin_bound [of y 3] have "\<bar>sin y - y\<bar> \<le> inverse (fact 3) * \<bar>y\<bar> ^ 3" by simp
  moreover have "inverse (fact 3) * \<bar>y\<bar> ^ 3 = y ^ 3 / 6"
    using y by (simp add: fact_numeral numeral_3_eq_3)
  ultimately show ?thesis by linarith
qed

lemma cos_clamped:
  assumes "\<bar>r\<bar> \<le> 85.05112878 * pi / 180"
  shows "2 / 25 \<le> cos (r::real)"
proof -
  define y where "y = pi / 2 - \<bar>r\<bar>"
  have y1: "824 / 10000 \<le> y"
  proof -
    have "pi * (1 / 2 - 85.05112878 / 180) \<le> y" using assms by (simp add: y_def field_simps)
    moreover have "3 * (1 / 2 - 85.05112878 / 180) \<le> pi * (1 / 2 - 85.05112878 / 180)"
      using pi_ge_3 by (intro mult_right_mono) simp_all
    ultimately show ?thesis by simp
  qed
  have y2: "y \<le> pi / 2" by (simp add: y_def)
  have "sin (824 / 10000) \<le> sin y"
    using y1 y2 by (intro sin_monotone_2pi_le) (simp_all add: order_trans [OF _ pi_ge_zero])
  moreover have "(824 / 10000) - (824 / 10000) ^ 3 / 6 \<le> sin (824 / 10000 :: real)"
    by (rule sin_lower) simp
  moreover have "cos r = sin y"
    by (simp add: y_def sin_cos_eq [of "pi / 2 - \<bar>r\<bar>"])
  ultimately show ?thesis by (simp add: power3_eq_cube)
qed

lemma mercator_bounds:
  assumes c: "2 / 25 \<le> cos (r::real)"
  shows "- 24 \<le> ln (tan r + 1 / cos r)" "ln (tan r + 1 / cos r) \<le> 24"
proof -
  from c have cp: "0 < cos r" by simp
  define t where "t = tan r + 1 / cos r"
  define u where "u = (1 - sin r) / cos r"
  have t: "t = (sin r + 1) / cos r" using cp by (simp add: t_def tan_def add_divide_distrib)
  have "(sin r + 1) * (1 - sin r) = cos r * cos r"
    using sin_cos_squared_add3 [of r] by (simp add: algebra_simps)
  then have tu: "t * u = 1" using cp by (simp add: t u_def)
  have s1: "sin r \<noteq> - 1"
  proof
    assume "sin r = - 1"
    with sin_cos_squared_add3 [of r] have "cos r * cos r = 0" by simp
    with cp show False by simp
  qed
  have "- 1 \<le> sin r" by simp
  with s1 have "0 < sin r + 1" by linarith
  then have tp: "0 < t" using cp by (simp add: t)
  with tu have up: "0 < u" by (metis zero_less_mult_pos zero_less_one)
  have "t * (2 / 25) \<le> t * cos r" using c tp by (intro mult_left_mono) simp_all
  also have "t * cos r = sin r + 1" using cp by (simp add: t)
  also have "sin r + 1 \<le> 2" by simp
  finally have t25: "t \<le> 25" by simp
  have "u * (2 / 25) \<le> u * cos r" using c up by (intro mult_left_mono) simp_all
  also have "u * cos r = 1 - sin r" using cp by (simp add: u_def)
  also have "1 - sin r \<le> 2" using sin_ge_minus_one [of r] by linarith
  finally have u25: "u \<le> 25" by simp
  have "ln t \<le> t - 1" using tp by (rule ln_le_minus_one)
  with t25 show "ln (tan r + 1 / cos r) \<le> 24" by (simp add: t_def)
  have "ln u \<le> u - 1" using up by (rule ln_le_minus_one)
  moreover have "ln t + ln u = 0" using tp up tu ln_mult_pos [of t u] by simp
  ultimately show "- 24 \<le> ln (tan r + 1 / cos r)" using u25 by (simp add: t_def)
qed

lemma lowerZoom_props:
  "lowerZoom cz z (cz z) = (z', c) \<Longrightarrow>
     c = cz z' \<and> z' \<le> z \<and>
     (tileCount (cz z') \<le> MAX_WAZE_TILE_BOXES_PER_REQUEST \<or> z' = 0) \<and>
     (\<forall>k. z' < k \<and> k \<le> z \<longrightarrow> tileCount (cz k) > MAX_WAZE_TILE_BOXES_PER_REQUEST)"
proof (induction z arbitrary: z' c)
  case 0
  then show ?case by (simp add: lowerZoom.simps [of cz 0])
next
  case (Suc z)
  show ?case
  proof (cases "tileCount (cz (Suc z)) > MAX_WAZE_TILE_BOXES_PER_REQUEST")
    case True
    with Suc.prems have "lowerZoom cz z (cz z) = (z', c)"
      by (simp add: lowerZoom.simps [of cz "Suc z"])
    from Suc.IH [OF this] True show ?thesis
      by (auto simp: le_Suc_eq)
  next
    case False
    with Suc.prems have "z' = Suc z" "c = cz (Suc z)"
      by (auto simp: lowerZoom.simps [of cz "Suc z"])
    with False show ?thesis by simp
  qed
qed

lemma lat2tileY_zoom0: "- 4 \<le> lat2tileY la 0 \<and> lat2tileY la 0 \<le> 4"
proof -
  define r where "r = clampLat la * pi / 180"
  have "\<bar>clampLat la\<bar> \<le> 85.05112878" by (simp add: clampLat_def MAX_LAT_def)
  then have "\<bar>clampLat la\<bar> * pi \<le> 85.05112878 * pi" by (intro mult_right_mono) simp_all
  then have "\<bar>r\<bar> \<le> 85.05112878 * pi / 180" by (simp add: r_def abs_mult)
  from mercator_bounds [OF cos_clamped [OF this]]
  have l: "- 24 \<le> ln (tan r + 1 / cos r)" and u: "ln (tan r + 1 / cos r) \<le> 24" .
  define q where "q = ln (tan r + 1 / cos r) / pi"
  have qp: "- 24 \<le> q * pi" "q * pi \<le> 24" using l u by (simp_all add: q_def)
  have q: "- 8 \<le> q" "q \<le> 8"
  proof -
    show "- 8 \<le> q"
    proof (cases "0 \<le> q")
      case True
      then show ?thesis by simp
    next
      case False
      then have "q * pi \<le> q * 3" using pi_ge_3 by (intro mult_left_mono_neg) simp_all
      with \<open>- 24 \<le> q * pi\<close> show ?thesis by simp
    qed
    show "q \<le> 8"
    proof (cases "0 \<le> q")
      case True
      then have "q * 3 \<le> q * pi" using pi_ge_3 by (intro mult_left_mono) simp_all
      with \<open>q * pi \<le> 24\<close> show ?thesis by simp
    next
      case False
      then show ?thesis by simp
    qed
  qed
  have v: "lat2tileY la 0 = \<lfloor>(1 - q) / 2\<rfloor>"
    by (simp add: lat2tileY_def Let_def q_def r_def)
  have "- 4 \<le> \<lfloor>(1 - q) / 2\<rfloor>" using q by (simp add: le_floor_iff)
  moreover have "\<lfloor>(1 - q) / 2\<rfloor> \<le> 4" using q by (simp add: floor_le_iff)
  ultimately show ?thesis by (simp add: v)
qed

lemma length_grid: "length (concat (map (\<lambda>x. map (g x) ys) xs)) = length xs * length ys"
  by (induction xs) simp_all

lemma normalizeLng_lower: "- 180 \<le> normalizeLng x"
proof -
  obtain k :: int where "- 180 \<le> js_rem (js_rem (x + 180) 360 + 360) 360 - 180"
    using normalizeLng_core [of x] by blast
  then show ?thesis by (simp add: normalizeLng_def Let_def)
qed

lemma span_count_zoom0:
  assumes "- 180 \<le> span_west sp"
  shows "length (spanDebugBoxes n s 0 sp) \<le> 9"
proof -
  define safeEast where "safeEast = (if span_east sp \<ge> 180 then 179.999999 else span_east sp)"
  define safeSouth where "safeSouth = (if s \<le> - 85.05112878 then - 85.05112877 else s)"
  define xMin where "xMin = lng2tileX (span_west sp) 0"
  define xMax where "xMax = lng2tileX safeEast 0"
  define yMin where "yMin = lat2tileY n 0"
  define yMax where "yMax = lat2tileY safeSouth 0"
  have len: "length (spanDebugBoxes n s 0 sp) = length [xMin..xMax] * length [yMin..yMax]"
    unfolding spanDebugBoxes_def Let_def
      safeEast_def [symmetric] safeSouth_def [symmetric]
      xMin_def [symmetric] xMax_def [symmetric] yMin_def [symmetric] yMax_def [symmetric]
    by (rule length_grid)
  have "0 \<le> (span_west sp + 180) / 360" using assms by simp
  then have x0: "0 \<le> xMin" by (simp add: xMin_def lng2tileX_def)
  have "safeEast < 180" by (simp add: safeEast_def)
  then have "(safeEast + 180) / 360 < 1" by simp
  then have x1: "xMax \<le> 0" by (simp add: xMax_def lng2tileX_def floor_le_iff)
  have y0: "- 4 \<le> yMin" using lat2tileY_zoom0 [of n] by (simp add: yMin_def)
  have y1: "yMax \<le> 4" using lat2tileY_zoom0 [of safeSouth] by (simp add: yMax_def)
  have lx: "length [xMin..xMax] \<le> 1" using x0 x1 by simp
  have ly: "length [yMin..yMax] \<le> 9" using y0 y1 by simp
  have "length [xMin..xMax] * length [yMin..yMax] \<le> 1 * 9"
    using lx ly by (rule mult_le_mono)
  with len show ?thesis by simp
qed

lemma tiles_zoom0: "tilesAtZoom b 0 \<le> 18"
proof -
  have a: "length (spanDebugBoxes n s 0 \<lparr> span_west = normalizeLng w, span_east = e \<rparr>) \<le> 9" for n s w e
    by (rule span_count_zoom0) (simp add: normalizeLng_lower)
  have c: "length (spanDebugBoxes n s 0 \<lparr> span_west = - 180, span_east = e \<rparr>) \<le> 9" for n s e
    by (rule span_count_zoom0) simp
  show ?thesis
    unfolding tilesAtZoom_def computeAtZoom_def buildSpans_def Let_def
    using a [of "clampLat (north b)" "clampLat (south b)" "west b" "normalizeLng (east b)"]
      a [of "clampLat (north b)" "clampLat (south b)" "west b" 180]
      c [of "clampLat (north b)" "clampLat (south b)" "normalizeLng (east b)"]
    by (simp split: if_splits)
qed

text \<open>
  Claim C1. For bounds that are not null and any zoom, the plan returned by
  \<open>buildWazeTileSnappedQuery\<close> has at most 24 debug boxes, and its \<open>usedZoom\<close> is the
  greatest zoom, among those from 0 to the rounded and clamped requested zoom, at which
  the tile count is at most 24; the debug boxes of the plan are the tiles counted at that
  zoom. Such a zoom always exists, since at zoom 0 the count is at most 18.
\<close>

theorem plan_tile_cap:
  "length (debugBoxes (buildWazeTileSnappedQuery (Some b) zoom)) \<le> 24 \<and>
   (\<exists>z. usedZoom (buildWazeTileSnappedQuery (Some b) zoom) = real z \<and>
        length (debugBoxes (buildWazeTileSnappedQuery (Some b) zoom)) = tilesAtZoom b z \<and>
        z \<le> clampZoom zoom \<and> tilesAtZoom b z \<le> 24 \<and>
        (\<forall>k. k \<le> clampZoom zoom \<and> tilesAtZoom b k \<le> 24 \<longrightarrow> k \<le> z)) \<and>
   usedZoom (buildWazeTileSnappedQuery (Some b) zoom)
     = real (Max {k. k \<le> clampZoom zoom \<and> tilesAtZoom b k \<le> 24})"
proof -
  define cz where "cz = computeAtZoom (buildSpans (normalizeLng (west b)) (normalizeLng (east b)))
                  (clampLat (north b)) (clampLat (south b))"
  define z0 where "z0 = clampZoom zoom"
  obtain z c where lz: "lowerZoom cz z0 (cz z0) = (z, c)"
    by (cases "lowerZoom cz z0 (cz z0)") auto
  have t: "tilesAtZoom b k = tileCount (cz k)" for k by (simp add: tilesAtZoom_def cz_def)
  have tc: "tileCount (cz k) = length (c_debugBoxes (cz k))" for k
    by (simp add: cz_def computeAtZoom_def Let_def)
  from lowerZoom_props [OF lz]
  have c: "c = cz z" and le: "z \<le> z0"
    and cap: "tileCount (cz z) \<le> MAX_WAZE_TILE_BOXES_PER_REQUEST \<or> z = 0"
    and above: "\<forall>k. z < k \<and> k \<le> z0 \<longrightarrow> tileCount (cz k) > MAX_WAZE_TILE_BOXES_PER_REQUEST"
    by blast+
  have plan: "buildWazeTileSnappedQuery (Some b) zoom
      = \<lparr> requestBoxes = c_requestBoxes c, debugBoxes = c_debugBoxes c,
          plan_tileCount = Some (tileCount c), usedZoom = real z \<rparr>"
    using lz by (simp add: buildWazeTileSnappedQuery_def Let_def cz_def z0_def)
  have ok: "tilesAtZoom b z \<le> 24"
  proof (cases "z = 0")
    case True
    with tiles_zoom0 [of b] show ?thesis by simp
  next
    case False
    with cap show ?thesis by (simp add: t MAX_WAZE_TILE_BOXES_PER_REQUEST_def)
  qed
  have mx: "k \<le> z" if "k \<le> z0 \<and> tilesAtZoom b k \<le> 24" for k
  proof (rule ccontr)
    assume "\<not> k \<le> z"
    with that above have "tileCount (cz k) > MAX_WAZE_TILE_BOXES_PER_REQUEST" by simp
    with that show False by (simp add: t MAX_WAZE_TILE_BOXES_PER_REQUEST_def)
  qed
  have len: "length (debugBoxes (buildWazeTileSnappedQuery (Some b) zoom)) = tilesAtZoom b z"
    by (simp add: plan c t tc)
  have "Max {k. k \<le> z0 \<and> tilesAtZoom b k \<le> 24} = z"
  proof (rule Max_eqI)
    show "finite {k. k \<le> z0 \<and> tilesAtZoom b k \<le> 24}" by simp
    show "z \<in> {k. k \<le> z0 \<and> tilesAtZoom b k \<le> 24}" using le ok by simp
    show "\<And>y. y \<in> {k. k \<le> z0 \<and> tilesAtZoom b k \<le> 24} \<Longrightarrow> y \<le> z" using mx by simp
  qed
  then have m: "usedZoom (buildWazeTileSnappedQuery (Some b) zoom)
     = real (Max {k. k \<le> clampZoom zoom \<and> tilesAtZoom b k \<le> 24})"
    by (simp add: plan z0_def)
  have e: "\<exists>z. usedZoom (buildWazeTileSnappedQuery (Some b) zoom) = real z \<and>
        length (debugBoxes (buildWazeTileSnappedQuery (Some b) zoom)) = tilesAtZoom b z \<and>
        z \<le> clampZoom zoom \<and> tilesAtZoom b z \<le> 24 \<and>
        (\<forall>k. k \<le> clampZoom zoom \<and> tilesAtZoom b k \<le> 24 \<longrightarrow> k \<le> z)"
    using len le ok mx by (intro exI [of _ z]) (simp add: plan z0_def)
  from len ok m e show ?thesis by simp
qed

theorem plan_tile_cap_witness:
  "length (debugBoxes (buildWazeTileSnappedQuery (Some exampleBounds) 10)) \<le> 24 \<and>
   usedZoom (buildWazeTileSnappedQuery (Some exampleBounds) 10) \<le> 10 \<and>
   usedZoom (buildWazeTileSnappedQuery (Some exampleBounds) 0.4) = 0"
proof -
  have a: "clampZoom 10 = 10" "clampZoom 0.4 = 0"
    by (simp_all add: clampZoom_def js_round_def)
  from plan_tile_cap [of exampleBounds 10] plan_tile_cap [of exampleBounds "0.4"] a
  show ?thesis by auto
qed

section \<open>A failed request before a rate-limit response\<close>

lemma requestBoxes_length:
  "length (requestBoxes (buildWazeTileSnappedQuery (Some b) zoom))
     = length (buildSpans (normalizeLng (west b)) (normalizeLng (east b)))"
proof -
  define cz where "cz = computeAtZoom (buildSpans (normalizeLng (west b)) (normalizeLng (east b)))
                  (clampLat (north b)) (clampLat (south b))"
  obtain z c where lz: "lowerZoom cz (clampZoom zoom) (cz (clampZoom zoom)) = (z, c)"
    by (cases "lowerZoom cz (clampZoom zoom) (cz (clampZoom zoom))") auto
  from lowerZoom_props [OF lz] have "c = cz z" by blast
  then have "length (c_requestBoxes c)
      = length (buildSpans (normalizeLng (west b)) (normalizeLng (east b)))"
    by (simp add: cz_def computeAtZoom_def Let_def)
  with lz show ?thesis
    by (simp add: buildWazeTileSnappedQuery_def Let_def cz_def)
qed

lemma cycleUrls_length:
  "length (cycleUrls b zoom mode)
     = length (buildSpans (normalizeLng (west b)) (normalizeLng (east b)))"
  by (simp add: cycleUrls_def buildWazeAlertsUrlsFromBoxes_def requestBoxes_length)

lemma cycleKey_length:
  "length (fst (cycleKey b zoom mode))
     = length (buildSpans (normalizeLng (west b)) (normalizeLng (east b)))"
  by (simp add: cycleKey_def queryKeyOf_def requestBoxes_length)

lemma run_request_failed:
  assumes "passesGates ev b zoom mode st"
    and "fetched ev (cycleUrls b zoom mode) = Fetched rs"
    and "find (\<lambda>res. \<not> r_ok res) rs = Some r"
    and "r_status r \<noteq> 429"
  shows "run ns tn dp ev b zoom mode st ui =
           catchError ev (RequestFailed (r_status r))
             (st \<lparr> lastQueryKey := Some (cycleKey b zoom mode) \<rparr>)
             (ui \<lparr> policeLoading := True, policeError := ErrNone \<rparr>)
             (cycleUrls b zoom mode)"
  using assms
  by (auto simp: run_def Let_def passesGates_def cycleKey_def cycleUrls_def)

lemma run_calls:
  assumes "passesGates ev b zoom mode st"
  shows "cr_calls (run ns tn dp ev b zoom mode st ui) = cycleUrls b zoom mode"
  using assms
  by (auto simp: run_def Let_def passesGates_def cycleKey_def cycleUrls_def
      split: fetchOutcome.splits option.splits jsonOutcome.splits)

lemma datelineBounds_spans:
  "length (buildSpans (normalizeLng (west datelineBounds)) (normalizeLng (east datelineBounds))) = 2"
  by (simp add: datelineBounds_def normalizeLng_id buildSpans_def)

lemma exampleBounds_spans:
  "length (buildSpans (normalizeLng (west exampleBounds)) (normalizeLng (east exampleBounds))) = 1"
  by (simp add: exampleBounds_def normalizeLng_id buildSpans_def)

lemma request_failed_500: "errMessage (RequestFailed 500) = ''Waze request failed (500)''"
  by (simp add: errMessage_def showNat.simps digitChar_def)

lemma no_429_in_message: "\<not> js_includes ''Waze request failed (500)'' ''429''"
  by (simp add: js_includes_def sublist_code)

text \<open>
  Claim C3. The claim has a 429 response with the retry directive \<open>30\<close> set \<open>backoffUntil\<close>
  to the time of that moment plus 30000 ms, so that a cycle attempted before that time is
  refused without a network call. The cycle does so only when the 429 response is the first
  response that is not ok. For the viewport across the antimeridian the cycle issues two
  calls; when the first is answered with status 500 and the second with status 429 and the
  directive \<open>30\<close>, the cycle stops at the first response: it reports the failed request,
  \<open>backoffUntil\<close> keeps its value 0, and a cycle started ten seconds later for another
  viewport issues its call.
\<close>

theorem rate_limit_after_failed_request:
  "length (cr_calls (run sampleNumStr sampleNumber sampleDateParse (mixedFailureCycle 100000)
      datelineBounds 10 Auto initialState initialUi)) = 2 \<and>
   fetched (mixedFailureCycle 100000) (cr_calls (run sampleNumStr sampleNumber sampleDateParse
      (mixedFailureCycle 100000) datelineBounds 10 Auto initialState initialUi))
     = Fetched [\<lparr> r_status = 500, r_retryAfter = None \<rparr>,
                \<lparr> r_status = 429, r_retryAfter = Some ''30'' \<rparr>] \<and>
   policeError (cr_ui (run sampleNumStr sampleNumber sampleDateParse (mixedFailureCycle 100000)
      datelineBounds 10 Auto initialState initialUi)) = ErrText ''Waze request failed (500)'' \<and>
   backoffUntil (cr_state (run sampleNumStr sampleNumber sampleDateParse (mixedFailureCycle 100000)
      datelineBounds 10 Auto initialState initialUi)) = 0 \<and>
   length (cr_calls (run sampleNumStr sampleNumber sampleDateParse (successCycle 110000 [])
      exampleBounds 10 Auto
      (cr_state (run sampleNumStr sampleNumber sampleDateParse (mixedFailureCycle 100000)
         datelineBounds 10 Auto initialState initialUi))
      initialUi)) = 1"
proof -
  let ?ev = "mixedFailureCycle 100000"
  let ?r = "\<lparr> r_status = 500, r_retryAfter = None \<rparr>"
  let ?rs = "[?r, \<lparr> r_status = 429, r_retryAfter = Some ''30'' \<rparr>]"
  let ?st = "initialState \<lparr> lastQueryKey := Some (cycleKey datelineBounds 10 Auto) \<rparr>"
  have g: "passesGates ?ev datelineBounds 10 Auto initialState"
    by (simp add: passesGates_def mixedFailureCycle_def initialState_def
        MIN_WAZE_FETCH_INTERVAL_MS_def)
  have f: "fetched ?ev urls = Fetched ?rs" for urls
    by (simp add: mixedFailureCycle_def mixedFailureAnswer_def)
  have n: "find (\<lambda>res. \<not> r_ok res) ?rs = Some ?r"
    by (simp add: r_ok_def)
  have run1: "run sampleNumStr sampleNumber sampleDateParse ?ev datelineBounds 10 Auto
        initialState initialUi
      = catchError ?ev (RequestFailed 500) ?st
          (initialUi \<lparr> policeLoading := True, policeError := ErrNone \<rparr>)
          (cycleUrls datelineBounds 10 Auto)"
    using run_request_failed [OF g f n, of sampleNumStr sampleNumber sampleDateParse initialUi]
    by simp
  have na: "\<not> aborted ?ev" by (simp add: mixedFailureCycle_def)
  have st1: "cr_state (run sampleNumStr sampleNumber sampleDateParse ?ev datelineBounds 10 Auto
        initialState initialUi) = ?st"
    by (simp only: run1 catchError_state)
  have calls1: "cr_calls (run sampleNumStr sampleNumber sampleDateParse ?ev datelineBounds 10 Auto
        initialState initialUi) = cycleUrls datelineBounds 10 Auto"
    by (simp only: run1 catchError_calls)
  have err1: "policeError (cr_ui (run sampleNumStr sampleNumber sampleDateParse ?ev
        datelineBounds 10 Auto initialState initialUi)) = ErrText ''Waze request failed (500)''"
    using na no_429_in_message
    by (simp only: run1 catchError_def request_failed_500) simp
  have key: "cycleKey exampleBounds 10 Auto \<noteq> cycleKey datelineBounds 10 Auto"
  proof
    assume "cycleKey exampleBounds 10 Auto = cycleKey datelineBounds 10 Auto"
    then have "length (fst (cycleKey exampleBounds 10 Auto))
        = length (fst (cycleKey datelineBounds 10 Auto))" by simp
    then show False
      by (simp add: cycleKey_length datelineBounds_spans exampleBounds_spans)
  qed
  have g2: "passesGates (successCycle 110000 []) exampleBounds 10 Auto ?st"
    using key
    by (simp add: passesGates_def successCycle_def initialState_def
        MIN_WAZE_FETCH_INTERVAL_MS_def)
  have calls2: "cr_calls (run sampleNumStr sampleNumber sampleDateParse (successCycle 110000 [])
        exampleBounds 10 Auto ?st initialUi) = cycleUrls exampleBounds 10 Auto"
    using g2 by (rule run_calls)
  show ?thesis
    by (simp only: st1 calls1 calls2 err1 f cycleUrls_length datelineBounds_spans
        exampleBounds_spans) (simp add: initialState_def)
qed

end
